theory Spec2Isabelle
  imports Complex_Main "HOL-Library.Sublist"
begin

section \<open>Python values\<close>

text \<open>
  Both scripts work on untyped data: \<^verbatim>\<open>parse_local_ticket_files.py\<close> on the values
  that \<^verbatim>\<open>ast.literal_eval\<close> returns, \<^verbatim>\<open>compare_and_export.py\<close> on the values
  that \<^verbatim>\<open>json.load\<close> returns. One datatype covers them. A float is kept as the exact
  rational it denotes (every finite double is a rational), an infinity, or NaN. No
  Python literal denotes NaN and \<^verbatim>\<open>gh\<close>, which prints standard JSON, never prints it;
  \<^verbatim>\<open>float('nan')\<close> returns it and \<^verbatim>\<open>json.load\<close> reads it from the token
  \<^verbatim>\<open>NaN\<close>. A dict has string keys and keeps its insertion order; its keys are pairwise
  different, and a lookup reads the binding of the key. A string is kept as its UTF-8
  encoding: a list of bytes in which an ASCII character is one byte below 0x80 and any
  other character is a lead byte followed by continuation bytes in the range 0x80 to
  0xBF. Bytes objects, complex numbers, sets and Ellipsis are not modelled.
\<close>

datatype pyfloat = Fin rat | PosInf | NegInf | NaN

datatype pyval =
    PNone
  | PBool bool
  | PInt int
  | PFloat pyfloat
  | PStr string
  | PList "pyval list"
  | PTuple "pyval list"
  | PDict "(string \<times> pyval) list"

type_synonym pydict = "(string \<times> pyval) list"

text \<open>Truth value of an object, as \<^verbatim>\<open>not x\<close>, \<^verbatim>\<open>x or y\<close> and \<^verbatim>\<open>if x\<close> test it.\<close>

fun truthy :: "pyval \<Rightarrow> bool" where
  "truthy PNone = False"
| "truthy (PBool b) = b"
| "truthy (PInt n) = (n \<noteq> 0)"
| "truthy (PFloat f) = (f \<noteq> Fin 0)"
| "truthy (PStr s) = (s \<noteq> [])"
| "truthy (PList xs) = (xs \<noteq> [])"
| "truthy (PTuple xs) = (xs \<noteq> [])"
| "truthy (PDict d) = (d \<noteq> [])"

text \<open>\<^verbatim>\<open>a or b\<close>: the left operand when it is true, else the right one.\<close>

definition py_or :: "pyval \<Rightarrow> pyval \<Rightarrow> pyval" where
  "py_or a b = (if truthy a then a else b)"

text \<open>\<^verbatim>\<open>d.get(k)\<close> on a dict: the value, or None for a key that is not there.\<close>

definition dict_get :: "pydict \<Rightarrow> string \<Rightarrow> pyval" where
  "dict_get d k = (case map_of d k of None \<Rightarrow> PNone | Some v \<Rightarrow> v)"

text \<open>
  \<^verbatim>\<open>a == b\<close>. Numbers of the three numeric types compare by value
  (\<^verbatim>\<open>True == 1 == 1.0\<close>), and NaN equals nothing, itself included; strings compare
  character by character, lists and tuples element by element, dicts key by key
  whatever the order; values of different kinds are unequal. (A container compares an
  element to itself as equal without asking \<^verbatim>\<open>==\<close>, which shows only for a NaN that is
  one and the same object on both sides. The scripts compare a value of the candidates
  or of the issue map with a value printed by \<^verbatim>\<open>gh\<close>, and the titles of
  different records with each other: never two values that share a NaN.)
\<close>

fun py_num :: "pyval \<Rightarrow> pyfloat option" where
  "py_num (PBool b) = Some (Fin (if b then 1 else 0))"
| "py_num (PInt n) = Some (Fin (of_int n))"
| "py_num (PFloat f) = Some f"
| "py_num _ = None"

fun py_eq :: "pyval \<Rightarrow> pyval \<Rightarrow> bool"
  and py_eq_seq :: "pyval list \<Rightarrow> pyval list \<Rightarrow> bool"
  and py_eq_items :: "pydict \<Rightarrow> pydict \<Rightarrow> bool"
  and py_eq_at :: "string \<Rightarrow> pyval \<Rightarrow> pydict \<Rightarrow> bool" where
  "py_eq PNone PNone = True"
| "py_eq (PStr s) (PStr t) = (s = t)"
| "py_eq (PList xs) (PList ys) = py_eq_seq xs ys"
| "py_eq (PTuple xs) (PTuple ys) = py_eq_seq xs ys"
| "py_eq (PDict a) (PDict b) = (length a = length b \<and> py_eq_items a b)"
| "py_eq a b =
     (case (py_num a, py_num b) of (Some x, Some y) \<Rightarrow> x = y \<and> x \<noteq> NaN | _ \<Rightarrow> False)"
| "py_eq_seq [] [] = True"
| "py_eq_seq (x # xs) (y # ys) = (py_eq x y \<and> py_eq_seq xs ys)"
| "py_eq_seq _ _ = False"
| "py_eq_items [] b = True"
| "py_eq_items ((k, v) # a) b = (py_eq_at k v b \<and> py_eq_items a b)"
| "py_eq_at k v [] = False"
| "py_eq_at k v ((k', v') # b) = (if k = k' then py_eq v v' else py_eq_at k v b)"

text \<open>Whether \<^verbatim>\<open>hash(x)\<close> succeeds: lists and dicts are unhashable, a tuple is
  hashable when its elements are.\<close>

fun hashable :: "pyval \<Rightarrow> bool" where
  "hashable (PList xs) = False"
| "hashable (PDict d) = False"
| "hashable (PTuple xs) = list_all hashable xs"
| "hashable _ = True"

text \<open>Exceptions are values. \<open>SystemExit n\<close> is \<^verbatim>\<open>sys.exit(n)\<close>.\<close>

datatype pyerr =
    RuntimeError
  | JSONDecodeError
  | TypeError
  | AttributeError
  | KeyError
  | IndexError
  | SystemExit int

text \<open>\<^verbatim>\<open>x.get(k)\<close> on any object: only a dict has the method.\<close>

fun py_get :: "pyval \<Rightarrow> string \<Rightarrow> pyerr + pyval" where
  "py_get (PDict d) k = Inr (dict_get d k)"
| "py_get _ k = Inl AttributeError"

text \<open>\<^verbatim>\<open>x[k]\<close> for a string key: a dict raises KeyError for a missing key; no other
  kind of value takes a string subscript.\<close>

fun py_getitem :: "pyval \<Rightarrow> string \<Rightarrow> pyerr + pyval" where
  "py_getitem (PDict d) k = (case map_of d k of None \<Rightarrow> Inl KeyError | Some v \<Rightarrow> Inr v)"
| "py_getitem _ k = Inl TypeError"

text \<open>The characters of a string, each as its own UTF-8 encoding: a new character
  starts at every byte that is not a continuation byte (an encoding never starts with
  one; continuation bytes in front of the first lead byte are kept as one piece).\<close>

definition is_cont :: "char \<Rightarrow> bool" where
  "is_cont c = (128 \<le> (of_char c :: nat) \<and> (of_char c :: nat) < 192)"

definition utf8_chars :: "string \<Rightarrow> string list" where
  "utf8_chars s =
     (case foldr (\<lambda>c p. if is_cont c then (c # fst p, snd p) else ([], (c # fst p) # snd p))
             s ([], []) of
        (rest, chs) \<Rightarrow> if rest = [] then chs else rest # chs)"

text \<open>\<^verbatim>\<open>x[0]\<close>: the first element of a sequence, the first character of a string; a
  dict (whose keys are strings) has no key 0; a number, a boolean or None is not
  subscriptable.\<close>

fun py_index0 :: "pyval \<Rightarrow> pyerr + pyval" where
  "py_index0 (PList (x # xs)) = Inr x"
| "py_index0 (PList []) = Inl IndexError"
| "py_index0 (PTuple (x # xs)) = Inr x"
| "py_index0 (PTuple []) = Inl IndexError"
| "py_index0 (PStr s) =
     (case utf8_chars s of [] \<Rightarrow> Inl IndexError | ch # chs \<Rightarrow> Inr (PStr ch))"
| "py_index0 (PDict d) = Inl KeyError"
| "py_index0 _ = Inl TypeError"

text \<open>The elements that \<^verbatim>\<open>for item in x\<close> visits: a dict yields its keys, a string its
  characters; a number, a boolean or None is not iterable.\<close>

fun py_iter :: "pyval \<Rightarrow> pyerr + pyval list" where
  "py_iter (PList xs) = Inr xs"
| "py_iter (PTuple xs) = Inr xs"
| "py_iter (PStr s) = Inr (map PStr (utf8_chars s))"
| "py_iter (PDict d) = Inr (map (\<lambda>kv. PStr (fst kv)) d)"
| "py_iter _ = Inl TypeError"

subsection \<open>Strings\<close>

text \<open>\<^verbatim>\<open>f in s\<close> for two strings: \<open>f\<close> occurs in \<open>s\<close> as a contiguous piece (of
  characters, and so of bytes, since no encoding of a character is a piece of
  another).\<close>

fun str_contains :: "string \<Rightarrow> string \<Rightarrow> bool" where
  "str_contains f [] = (f = [])"
| "str_contains f (c # cs) = (prefix f (c # cs) \<or> str_contains f cs)"

section \<open>compare\_and\_export.py\<close>

text \<open>
  The result of \<^verbatim>\<open>run(cmd)\<close> as far as the script reads it: the return code, and
  what \<^verbatim>\<open>json.loads(p.stdout)\<close> gives (\<open>None\<close> where it raises).
\<close>

record proc =
  returncode :: int
  stdout_json :: "pyval option"

definition REQUIRE_FIELDS :: "string list" where
  "REQUIRE_FIELDS = [''REQUIRES'', ''PROVIDES'', ''PRIORITY'']"

text \<open>The list comprehension of \<^verbatim>\<open>gh_issue_list_by_title\<close>: the items whose title
  equals the given one, in order; an item without a \<^verbatim>\<open>get\<close> method raises.\<close>

fun select_by_title :: "pyval list \<Rightarrow> pyval \<Rightarrow> pyerr + pyval list" where
  "select_by_title [] title = Inr []"
| "select_by_title (item # arr) title =
     (case py_get item ''title'' of
        Inl e \<Rightarrow> Inl e
      | Inr t \<Rightarrow>
          (case select_by_title arr title of
             Inl e \<Rightarrow> Inl e
           | Inr ms \<Rightarrow> Inr (if py_eq t title then item # ms else ms)))"

definition gh_issue_list_by_title :: "proc \<Rightarrow> pyval \<Rightarrow> pyerr + pyval list" where
  "gh_issue_list_by_title p title =
     (if returncode p \<noteq> 0 then Inl RuntimeError
      else case stdout_json p of
             None \<Rightarrow> Inl JSONDecodeError
           | Some arr \<Rightarrow>
               (case py_iter arr of
                  Inl e \<Rightarrow> Inl e
                | Inr items \<Rightarrow> select_by_title items title))"

definition gh_sub_issue_parent :: "proc \<Rightarrow> pyerr + pyval" where
  "gh_sub_issue_parent p =
     (if returncode p \<noteq> 0 then Inr PNone
      else case stdout_json p of
             None \<Rightarrow> Inr PNone
           | Some obj \<Rightarrow>
               if \<not> truthy obj then Inr PNone
               else case py_index0 obj of
                      Inl e \<Rightarrow> Inl e
                    | Inr first \<Rightarrow>
                        (case py_get first ''parent'' of
                           Inl e \<Rightarrow> Inl e
                         | Inr parent \<Rightarrow>
                             if \<not> truthy parent then Inr PNone
                             else py_get parent ''number''))"

text \<open>
  \<^verbatim>\<open>body.upper()\<close>: only a string has the method. The built-in \<^verbatim>\<open>str.upper\<close>, which
  follows the case tables of Unicode, is a parameter: \<open>up s\<close> is the (encoded) value of
  \<^verbatim>\<open>s.upper()\<close>.
\<close>

fun py_upper :: "(string \<Rightarrow> string) \<Rightarrow> pyval \<Rightarrow> pyerr + string" where
  "py_upper up (PStr s) = Inr (up s)"
| "py_upper up _ = Inl AttributeError"

text \<open>The loop of \<^verbatim>\<open>body_has_required_fields\<close> over the required fields.\<close>

fun fields_loop :: "string list \<Rightarrow> string \<Rightarrow> bool" where
  "fields_loop [] ub = True"
| "fields_loop (f # fs) ub = (if \<not> str_contains f ub then False else fields_loop fs ub)"

definition body_has_required_fields :: "(string \<Rightarrow> string) \<Rightarrow> pyval \<Rightarrow> pyerr + bool" where
  "body_has_required_fields up body =
     (case (if truthy body then py_upper up body else Inr []) of
        Inl e \<Rightarrow> Inl e
      | Inr ub \<Rightarrow> Inr (fields_loop REQUIRE_FIELDS ub))"

text \<open>\<^verbatim>\<open>isinstance(x, int)\<close>: \<^verbatim>\<open>bool\<close> is a subclass of \<^verbatim>\<open>int\<close>.\<close>

fun is_int :: "pyval \<Rightarrow> bool" where
  "is_int (PInt n) = True"
| "is_int (PBool b) = True"
| "is_int _ = False"

text \<open>\<^verbatim>\<open>x in issue_map\<close> for a dict with string keys: hashing an unhashable object
  raises; only a string can equal a key.\<close>

fun py_in_dict :: "pyval \<Rightarrow> pydict \<Rightarrow> pyerr + bool" where
  "py_in_dict (PStr s) d = Inr (map_of d s \<noteq> None)"
| "py_in_dict x d = (if hashable x then Inr False else Inl TypeError)"

text \<open>\<^verbatim>\<open>issue_map[x]\<close>.\<close>

fun py_dict_item :: "pydict \<Rightarrow> pyval \<Rightarrow> pyerr + pyval" where
  "py_dict_item d (PStr s) = (case map_of d s of None \<Rightarrow> Inl KeyError | Some v \<Rightarrow> Inr v)"
| "py_dict_item d x = (if hashable x then Inl KeyError else Inl TypeError)"

definition map_parent_canonical_to_number :: "pyval \<Rightarrow> pydict \<Rightarrow> pyerr + pyval" where
  "map_parent_canonical_to_number parent_canonical issue_map =
     (if \<not> truthy parent_canonical then Inr PNone
      else if is_int parent_canonical then Inr parent_canonical
      else case py_in_dict parent_canonical issue_map of
             Inl e \<Rightarrow> Inl e
           | Inr found \<Rightarrow>
               if found then py_dict_item issue_map parent_canonical
               else Inr PNone)"

text \<open>
  What a run meets outside the script. The script queries \<^verbatim>\<open>gh\<close> anew for every
  candidate: \<open>issue_list gh i\<close> is the answer to the \<^verbatim>\<open>gh issue list\<close> call of
  iteration \<open>i\<close>, and \<open>sub_issue gh i n\<close> the answer to \<^verbatim>\<open>gh sub-issue list n\<close>
  made in that iteration. \<open>str_upper gh\<close> is the built-in \<^verbatim>\<open>str.upper\<close> of the
  interpreter that runs the script.
\<close>

record gh_env =
  issue_list :: "nat \<Rightarrow> proc"
  sub_issue :: "nat \<Rightarrow> pyval \<Rightarrow> proc"
  str_upper :: "string \<Rightarrow> string"

text \<open>The variables that the loop of \<^verbatim>\<open>main\<close> updates.\<close>

record run_state =
  exported :: "pydict list"
  scanned :: nat
  fully_correct :: nat
  ambiguous :: "pydict list"

text \<open>The thirteen entries that all three exported dicts of \<^verbatim>\<open>main\<close> start with.\<close>

definition export_record :: "pydict \<Rightarrow> pyval \<Rightarrow> pyval \<Rightarrow> pydict" where
  "export_record c title expected_parent_num =
     [(''issue_number'', PNone),
      (''canonical_id'', dict_get c ''canonical_id''),
      (''title'', title),
      (''body'', py_or (dict_get c ''body'') (PStr [])),
      (''labels'', py_or (dict_get c ''labels'') (PList [])),
      (''state'', PStr ''planned''),
      (''parent_issue_number'', expected_parent_num),
      (''requires'', py_or (dict_get c ''requires'') (PStr [])),
      (''provides'', py_or (dict_get c ''provides'') (PStr [])),
      (''points'', py_or (dict_get c ''points'') PNone),
      (''priority'', py_or (dict_get c ''priority'') PNone),
      (''created_at'', PNone),
      (''url'', PNone)]"

text \<open>\<^verbatim>\<open>[m['number'] for m in matches]\<close>.\<close>

fun match_numbers :: "pyval list \<Rightarrow> pyerr + pyval list" where
  "match_numbers [] = Inr []"
| "match_numbers (m # ms) =
     (case py_getitem m ''number'' of
        Inl e \<Rightarrow> Inl e
      | Inr n \<Rightarrow>
          (case match_numbers ms of
             Inl e \<Rightarrow> Inl e
           | Inr ns \<Rightarrow> Inr (n # ns)))"

text \<open>
  One iteration of \<^verbatim>\<open>for c in candidates\<close>. \<open>Inl (SystemExit 1)\<close> is the
  \<^verbatim>\<open>sys.exit(1)\<close> of the handler around the title query; any other \<open>Inl\<close> is an
  exception that nothing catches.
\<close>

definition loop_body :: "gh_env \<Rightarrow> pydict \<Rightarrow> nat \<Rightarrow> run_state \<Rightarrow> pydict \<Rightarrow> pyerr + run_state" where
  "loop_body gh issues_map i st c =
     (let st1 = st\<lparr>scanned := scanned st + 1\<rparr>;
          title = dict_get c ''title'';
          parent_can = dict_get c ''parent_canonical''
      in case map_parent_canonical_to_number parent_can issues_map of
           Inl e \<Rightarrow> Inl e
         | Inr expected_parent_num \<Rightarrow>
             (case gh_issue_list_by_title (issue_list gh i) title of
                Inl e \<Rightarrow> Inl (SystemExit 1)
              | Inr matches \<Rightarrow>
                  if matches = [] then
                    Inr (st1\<lparr>exported := exported st1 @ [export_record c title expected_parent_num]\<rparr>)
                  else if length matches > 1 then
                    (case match_numbers matches of
                       Inl e \<Rightarrow> Inl e
                     | Inr nums \<Rightarrow>
                         Inr (st1\<lparr>ambiguous := ambiguous st1 @
                                      [ [(''title'', title), (''matches'', PList nums)] ],
                                   exported := exported st1 @
                                      [export_record c title expected_parent_num]\<rparr>))
                  else
                    (case py_index0 (PList matches) of
                       Inl e \<Rightarrow> Inl e
                     | Inr remote \<Rightarrow>
                         (case py_get remote ''number'' of
                            Inl e \<Rightarrow> Inl e
                          | Inr remote_num \<Rightarrow>
                              (case py_get remote ''body'' of
                                 Inl e \<Rightarrow> Inl e
                               | Inr b \<Rightarrow>
                                   (let remote_body = py_or b (PStr []);
                                        parent_num =
                                          (case gh_sub_issue_parent (sub_issue gh i remote_num) of
                                             Inl e \<Rightarrow> PNone
                                           | Inr n \<Rightarrow> n);
                                        parent_ok =
                                          ((expected_parent_num = PNone \<and> parent_num = PNone)
                                           \<or> py_eq expected_parent_num parent_num)
                                    in case body_has_required_fields (str_upper gh) remote_body of
                                         Inl e \<Rightarrow> Inl e
                                       | Inr body_ok \<Rightarrow>
                                           if parent_ok \<and> body_ok then
                                             Inr (st1\<lparr>fully_correct := fully_correct st1 + 1\<rparr>)
                                           else
                                             Inr (st1\<lparr>exported := exported st1 @
                                                [export_record c title expected_parent_num @
                                                 [(''notes'', PDict
                                                    [(''remote_issue_number'', remote_num),
                                                     (''remote_parent_number'', parent_num),
                                                     (''body_has_required_fields'',
                                                        PBool body_ok)])] ]\<rparr>)))))))"

fun main_loop :: "gh_env \<Rightarrow> pydict \<Rightarrow> nat \<Rightarrow> run_state \<Rightarrow> pydict list \<Rightarrow> pyerr + run_state" where
  "main_loop gh issues_map i st [] = Inr st"
| "main_loop gh issues_map i st (c # cs) =
     (case loop_body gh issues_map i st c of
        Inl e \<Rightarrow> Inl e
      | Inr st' \<Rightarrow> main_loop gh issues_map (Suc i) st' cs)"

text \<open>
  How a run of \<^verbatim>\<open>main\<close> ends: \<open>Exited n\<close> after \<^verbatim>\<open>sys.exit(n)\<close>, \<open>Crashed e\<close>
  after an uncaught exception (the interpreter then exits with status 1), and
  \<open>Finished ex st\<close> when the end of \<^verbatim>\<open>main\<close> is reached: \<open>ex\<close> is the list dumped
  to \<^verbatim>\<open>exported_issues.json\<close>, \<open>st\<close> holds the counters of the summary line.
  The export file is written nowhere else.
\<close>

datatype run_result = Exited int | Crashed pyerr | Finished "pydict list" run_state

fun exit_status :: "run_result \<Rightarrow> int" where
  "exit_status (Exited n) = n"
| "exit_status (Crashed e) = 1"
| "exit_status (Finished ex st) = 0"

fun written :: "run_result \<Rightarrow> pydict list option" where
  "written (Finished ex st) = Some ex"
| "written _ = None"

definition init_state :: run_state where
  "init_state = \<lparr>exported = [], scanned = 0, fully_correct = 0, ambiguous = []\<rparr>"

text \<open>
  \<^verbatim>\<open>main\<close>. \<open>cand_file\<close> is the list under \<^verbatim>\<open>candidates\<close> in
  \<^verbatim>\<open>canonical_candidates.json\<close> (a list of JSON objects), \<open>None\<close> when the file does
  not exist; \<open>map_file\<close> is the object in \<^verbatim>\<open>issue_map.json\<close>, \<open>None\<close> when that
  file does not exist.
\<close>

definition main :: "gh_env \<Rightarrow> pydict list option \<Rightarrow> pydict option \<Rightarrow> run_result" where
  "main gh cand_file map_file =
     (case cand_file of
        None \<Rightarrow> Exited 1
      | Some candidates \<Rightarrow>
          (let issues_map = (case map_file of None \<Rightarrow> [] | Some m \<Rightarrow> m)
           in case main_loop gh issues_map 0 init_state candidates of
                Inl (SystemExit n) \<Rightarrow> Exited n
              | Inl e \<Rightarrow> Crashed e
              | Inr st \<Rightarrow> Finished (exported st) st))"

section \<open>parse\_local\_ticket\_files.py\<close>

text \<open>\<^verbatim>\<open>d[k] = v\<close>: an existing key keeps its place, a new key goes to the end.\<close>

fun dict_set :: "pydict \<Rightarrow> string \<Rightarrow> pyval \<Rightarrow> pydict" where
  "dict_set [] k v = [(k, v)]"
| "dict_set ((k', v') # d) k v =
     (if k' = k then (k', v) # d else (k', v') # dict_set d k v)"

text \<open>\<^verbatim>\<open>s.split(',')\<close>: the pieces between the separators, empty ones included.\<close>

fun split_on :: "char \<Rightarrow> string \<Rightarrow> string list" where
  "split_on sep [] = [ [] ]"
| "split_on sep (c # cs) =
     (if c = sep then [] # split_on sep cs
      else case split_on sep cs of
             [] \<Rightarrow> [ [c] ]
           | p # ps \<Rightarrow> (c # p) # ps)"

text \<open>
  \<^verbatim>\<open>s.strip()\<close>: whitespace characters go from both ends. These are the characters for
  which \<^verbatim>\<open>str.isspace\<close> holds: U+0009 to U+000D, U+001C to U+0020, U+0085, U+00A0,
  U+1680, U+2000 to U+200A, U+2028, U+2029, U+202F, U+205F and U+3000, listed here by
  their encodings.
\<close>

definition whitespace :: "string list" where
  "whitespace =
     [ [CHR 0x09], [CHR 0x0A], [CHR 0x0B], [CHR 0x0C], [CHR 0x0D],
      [CHR 0x1C], [CHR 0x1D], [CHR 0x1E], [CHR 0x1F], [CHR 0x20],
      [CHR 0xC2, CHR 0x85], [CHR 0xC2, CHR 0xA0], [CHR 0xE1, CHR 0x9A, CHR 0x80],
      [CHR 0xE2, CHR 0x80, CHR 0x80], [CHR 0xE2, CHR 0x80, CHR 0x81],
      [CHR 0xE2, CHR 0x80, CHR 0x82], [CHR 0xE2, CHR 0x80, CHR 0x83],
      [CHR 0xE2, CHR 0x80, CHR 0x84], [CHR 0xE2, CHR 0x80, CHR 0x85],
      [CHR 0xE2, CHR 0x80, CHR 0x86], [CHR 0xE2, CHR 0x80, CHR 0x87],
      [CHR 0xE2, CHR 0x80, CHR 0x88], [CHR 0xE2, CHR 0x80, CHR 0x89],
      [CHR 0xE2, CHR 0x80, CHR 0x8A], [CHR 0xE2, CHR 0x80, CHR 0xA8],
      [CHR 0xE2, CHR 0x80, CHR 0xA9], [CHR 0xE2, CHR 0x80, CHR 0xAF],
      [CHR 0xE2, CHR 0x81, CHR 0x9F], [CHR 0xE3, CHR 0x80, CHR 0x80] ]"

definition is_space :: "string \<Rightarrow> bool" where
  "is_space ch = (ch \<in> set whitespace)"

definition strip :: "string \<Rightarrow> string" where
  "strip s = concat (rev (dropWhile is_space (rev (dropWhile is_space (utf8_chars s)))))"

text \<open>\<^verbatim>\<open>[s.strip() for s in labels.split(',') if s.strip()]\<close>.\<close>

definition split_labels :: "string \<Rightarrow> pyval" where
  "split_labels labels =
     PList (map (\<lambda>s. PStr (strip s)) (filter (\<lambda>s. strip s \<noteq> []) (split_on CHR '','' labels)))"

fun is_dict :: "pyval \<Rightarrow> bool" where
  "is_dict (PDict d) = True"
| "is_dict _ = False"

text \<open>
  \<^verbatim>\<open>normalize_ticket\<close>. The built-ins \<^verbatim>\<open>int\<close> and \<^verbatim>\<open>float\<close> are parameters:
  \<open>to_int v\<close> is the value of \<^verbatim>\<open>int(v)\<close> and \<open>to_float v\<close> that of \<^verbatim>\<open>float(v)\<close>,
  \<open>None\<close> where the built-in raises. The dict literal is built first; the two
  assignments to \<^verbatim>\<open>canonical['labels']\<close> and \<^verbatim>\<open>canonical['points']\<close> follow.
\<close>

definition normalize_ticket ::
  "(pyval \<Rightarrow> int option) \<Rightarrow> (pyval \<Rightarrow> pyfloat option) \<Rightarrow> pydict \<Rightarrow> pydict" where
  "normalize_ticket to_int to_float d =
     (let canonical =
            [(''canonical_id'', py_or (dict_get d ''canonical_id'') (py_or (dict_get d ''id'')
                 (py_or (dict_get d ''key'') (py_or (dict_get d ''ticket_id'') PNone)))),
             (''title'', py_or (dict_get d ''title'') (py_or (dict_get d ''name'')
                 (py_or (dict_get d ''summary'') (PStr [])))),
             (''body'', py_or (dict_get d ''body'') (py_or (dict_get d ''description'')
                 (py_or (dict_get d ''desc'') (PStr [])))),
             (''labels'', py_or (dict_get d ''labels'') (py_or (dict_get d ''tags'') (PList []))),
             (''parent_canonical'', py_or (dict_get d ''parent'') (py_or (dict_get d ''parent_id'')
                 (py_or (dict_get d ''parent_key'') PNone))),
             (''points'', py_or (dict_get d ''points'') (py_or (dict_get d ''estimate'') PNone)),
             (''priority'', py_or (dict_get d ''priority'') PNone),
             (''requires'', py_or (dict_get d ''requires'') (py_or (dict_get d ''REQUIRES'') (PStr []))),
             (''provides'', py_or (dict_get d ''provides'') (py_or (dict_get d ''PROVIDES'') (PStr [])))];
          canonical1 =
            (case dict_get canonical ''labels'' of
               PStr labels \<Rightarrow> dict_set canonical ''labels'' (split_labels labels)
             | _ \<Rightarrow> canonical);
          canonical2 =
            (if dict_get canonical1 ''points'' \<noteq> PNone then
               (case to_int (dict_get canonical1 ''points'') of
                  Some n \<Rightarrow> dict_set canonical1 ''points'' (PInt n)
                | None \<Rightarrow>
                    (case to_float (dict_get canonical1 ''points'') of
                       Some x \<Rightarrow> dict_set canonical1 ''points'' (PFloat x)
                     | None \<Rightarrow> dict_set canonical1 ''points'' PNone))
             else canonical1)
      in canonical2)"

text \<open>
  The state of a run of \<^verbatim>\<open>main\<close>: the local set \<^verbatim>\<open>seen_titles\<close> (kept as the list
  of its members) and the two module-level lists.
\<close>

record parse_state =
  seen_titles :: "pyval list"
  candidate_list :: "pydict list"
  errors :: "(string \<times> string) list"

text \<open>\<^verbatim>\<open>x in seen_titles\<close>: hashing an unhashable object raises; a member is found
  when it equals \<open>x\<close> (or is the same object, which no other record's title is).\<close>

definition py_in_set :: "pyval \<Rightarrow> pyval list \<Rightarrow> pyerr + bool" where
  "py_in_set x members =
     (if hashable x then Inr (list_ex (\<lambda>m. py_eq m x) members) else Inl TypeError)"

text \<open>The block that follows each call of \<^verbatim>\<open>normalize_ticket\<close> in \<^verbatim>\<open>main\<close>: skip a
  candidate without title, skip a title already seen, else record the title and append.\<close>

definition add_candidate :: "parse_state \<Rightarrow> pydict \<Rightarrow> pyerr + parse_state" where
  "add_candidate st cand =
     (if \<not> truthy (dict_get cand ''title'') then Inr st
      else case py_in_set (dict_get cand ''title'') (seen_titles st) of
             Inl e \<Rightarrow> Inl e
           | Inr seen \<Rightarrow>
               if seen then Inr st
               else Inr (st\<lparr>seen_titles := dict_get cand ''title'' # seen_titles st,
                          candidate_list := candidate_list st @ [cand]\<rparr>))"

text \<open>\<^verbatim>\<open>for item in lit\<close>, for a list whose items are all dicts.\<close>

fun list_loop ::
  "(pyval \<Rightarrow> int option) \<Rightarrow> (pyval \<Rightarrow> pyfloat option) \<Rightarrow> parse_state \<Rightarrow> pyval list
     \<Rightarrow> pyerr + parse_state" where
  "list_loop to_int to_float st [] = Inr st"
| "list_loop to_int to_float st (PDict item # items) =
     (case add_candidate st (normalize_ticket to_int to_float item) of
        Inl e \<Rightarrow> Inl e
      | Inr st' \<Rightarrow> list_loop to_int to_float st' items)"
| "list_loop to_int to_float st (_ # items) = Inl AttributeError"

text \<open>\<^verbatim>\<open>for k,v in lit.items()\<close>, for a dict whose values are all dicts.\<close>

fun mapping_loop ::
  "(pyval \<Rightarrow> int option) \<Rightarrow> (pyval \<Rightarrow> pyfloat option) \<Rightarrow> parse_state \<Rightarrow> pydict
     \<Rightarrow> pyerr + parse_state" where
  "mapping_loop to_int to_float st [] = Inr st"
| "mapping_loop to_int to_float st ((k, PDict v) # kvs) =
     (let v' = dict_set v ''canonical_id'' (py_or (dict_get v ''canonical_id'') (PStr k))
      in case add_candidate st (normalize_ticket to_int to_float v') of
           Inl e \<Rightarrow> Inl e
         | Inr st' \<Rightarrow> mapping_loop to_int to_float st' kvs)"
| "mapping_loop to_int to_float st (_ # kvs) = Inl AttributeError"

text \<open>The body of \<^verbatim>\<open>for lit in literals\<close>.\<close>

fun process_literal ::
  "(pyval \<Rightarrow> int option) \<Rightarrow> (pyval \<Rightarrow> pyfloat option) \<Rightarrow> parse_state \<Rightarrow> pyval
     \<Rightarrow> pyerr + parse_state" where
  "process_literal to_int to_float st (PList items) =
     (if list_all is_dict items then list_loop to_int to_float st items else Inr st)"
| "process_literal to_int to_float st (PDict d) =
     (if list_all (\<lambda>kv. is_dict (snd kv)) d then mapping_loop to_int to_float st d
      else add_candidate st (normalize_ticket to_int to_float d))"
| "process_literal to_int to_float st _ = Inr st"

fun literals_loop ::
  "(pyval \<Rightarrow> int option) \<Rightarrow> (pyval \<Rightarrow> pyfloat option) \<Rightarrow> parse_state \<Rightarrow> pyval list
     \<Rightarrow> pyerr + parse_state" where
  "literals_loop to_int to_float st [] = Inr st"
| "literals_loop to_int to_float st (lit # lits) =
     (case process_literal to_int to_float st lit of
        Inl e \<Rightarrow> Inl e
      | Inr st' \<Rightarrow> literals_loop to_int to_float st' lits)"

text \<open>
  The two nested loops over the patterns and the paths they match, flattened: the
  argument lists the paths in the order in which \<^verbatim>\<open>main\<close> visits them (a file that
  several patterns match occurs several times), each with what
  \<^verbatim>\<open>extract_literals_from_file\<close> gives for it: \<open>Inl msg\<close> when it raises (the file
  does not parse), else the literals it returns.
\<close>

fun files_loop ::
  "(pyval \<Rightarrow> int option) \<Rightarrow> (pyval \<Rightarrow> pyfloat option) \<Rightarrow> parse_state
     \<Rightarrow> (string \<times> (string + pyval list)) list \<Rightarrow> pyerr + parse_state" where
  "files_loop to_int to_float st [] = Inr st"
| "files_loop to_int to_float st ((path, Inl msg) # files) =
     files_loop to_int to_float (st\<lparr>errors := errors st @ [(path, msg)]\<rparr>) files"
| "files_loop to_int to_float st ((path, Inr literals) # files) =
     (case literals_loop to_int to_float st literals of
        Inl e \<Rightarrow> Inl e
      | Inr st' \<Rightarrow> files_loop to_int to_float st' files)"

definition parse_init :: parse_state where
  "parse_init = \<lparr>seen_titles = [], candidate_list = [], errors = []\<rparr>"

text \<open>\<^verbatim>\<open>main\<close> of the parser: \<open>Inr st\<close> when the run reaches its end, where
  \<open>candidate_list st\<close> and \<open>errors st\<close> are written to
  \<^verbatim>\<open>canonical_candidates.json\<close>.\<close>

definition parse_main ::
  "(pyval \<Rightarrow> int option) \<Rightarrow> (pyval \<Rightarrow> pyfloat option)
     \<Rightarrow> (string \<times> (string + pyval list)) list \<Rightarrow> pyerr + parse_state" where
  "parse_main to_int to_float files = files_loop to_int to_float parse_init files"

section \<open>Notions used in the statements\<close>

text \<open>A remote ticket carries exactly the title \<open>t\<close>: the same string, character for
  character.\<close>

definition same_title :: "string \<Rightarrow> pyval \<Rightarrow> bool" where
  "same_title t ticket = (py_get ticket ''title'' = Inr (PStr t))"

definition ticket_number :: "pyval \<Rightarrow> pyval" where
  "ticket_number ticket = (case py_get ticket ''number'' of Inl e \<Rightarrow> PNone | Inr n \<Rightarrow> n)"

definition has_number :: "pyval \<Rightarrow> bool" where
  "has_number ticket = (case py_getitem ticket ''number'' of Inl e \<Rightarrow> False | Inr n \<Rightarrow> True)"

text \<open>A text contains a marker (a word in upper case) whatever the case of its letters:
  the marker is a contiguous piece of the text once \<open>up\<close> has brought the text to upper
  case. A marker of ASCII characters is a piece of the characters of a text exactly when
  it is a piece of its UTF-8 encoding.\<close>

definition contains_ci :: "(string \<Rightarrow> string) \<Rightarrow> string \<Rightarrow> string \<Rightarrow> bool" where
  "contains_ci up marker text = (\<exists>pre post. up text = pre @ marker @ post)"

text \<open>Upper case for ASCII text: the letters a to z become A to Z and no other
  character moves. \<^verbatim>\<open>str.upper\<close> gives the same result on a text of ASCII characters;
  on other texts it does not (it sends U+0131 to I and U+017F to S, for instance).\<close>

definition ascii_upper_char :: "char \<Rightarrow> char" where
  "ascii_upper_char c =
     (case map_of (zip ''abcdefghijklmnopqrstuvwxyz'' ''ABCDEFGHIJKLMNOPQRSTUVWXYZ'') c of
        Some u \<Rightarrow> u
      | None \<Rightarrow> c)"

definition ascii_upper :: "string \<Rightarrow> string" where
  "ascii_upper s = map ascii_upper_char s"

subsection \<open>Example data\<close>

text \<open>A snapshot of four remote tickets, two of them with the same title; ticket 13 has
  the parent 42 and the lookup of any other parent fails. All the bodies are ASCII text,
  so \<open>ascii_upper\<close> stands for \<^verbatim>\<open>str.upper\<close>. The issue map sends \<^verbatim>\<open>CORE-1\<close> to 42.\<close>

abbreviation ex_ticket :: "int \<Rightarrow> string \<Rightarrow> string \<Rightarrow> pyval" where
  "ex_ticket n t b \<equiv> PDict [(''number'', PInt n), (''title'', PStr t), (''body'', PStr b)]"

abbreviation ex_tickets :: "pyval list" where
  "ex_tickets \<equiv>
     [ex_ticket 11 ''Fix login'' ''Requires: a. Provides: b. Priority: low'',
      ex_ticket 12 ''Fix login'' [],
      ex_ticket 13 ''Add caching layer'' ''requires: x; PROVIDES: y; Priority: high'',
      ex_ticket 14 ''Tune cache'' ''REQUIRES: x'']"

abbreviation ex_gh :: gh_env where
  "ex_gh \<equiv>
     \<lparr>issue_list = (\<lambda>i. \<lparr>returncode = 0, stdout_json = Some (PList ex_tickets)\<rparr>),
      sub_issue = (\<lambda>i n. if n = PInt 13
         then \<lparr>returncode = 0,
               stdout_json = Some (PList [PDict [(''parent'', PDict [(''number'', PInt 42)])] ])\<rparr>
         else \<lparr>returncode = 1, stdout_json = None\<rparr>),
      str_upper = ascii_upper\<rparr>"

abbreviation ex_map :: pydict where
  "ex_map \<equiv> [(''CORE-1'', PInt 42)]"

abbreviation ex_cand :: "string \<Rightarrow> pyval \<Rightarrow> pydict" where
  "ex_cand t p \<equiv> [(''canonical_id'', PNone), (''title'', PStr t), (''parent_canonical'', p)]"

abbreviation ex_cands :: "pydict list" where
  "ex_cands \<equiv>
     [ex_cand ''Add caching layer'' (PStr ''CORE-1''),
      ex_cand ''Fix login'' PNone,
      ex_cand ''Write docs'' (PStr ''CORE-9''),
      ex_cand ''Tune cache'' PNone]"

text \<open>The same remote side, except that every title query after the first fails.\<close>

abbreviation ex_gh_down :: gh_env where
  "ex_gh_down \<equiv>
     \<lparr>issue_list = (\<lambda>i. if i = 0 then \<lparr>returncode = 0, stdout_json = Some (PList ex_tickets)\<rparr>
                          else \<lparr>returncode = 1, stdout_json = None\<rparr>),
      sub_issue = sub_issue ex_gh,
      str_upper = ascii_upper\<rparr>"

text \<open>A remote side whose one ticket has a body with the letter U+0131 (dotless i,
  encoded as the bytes 0xC4 0xB1) in the word priority. \<open>uni_upper\<close> stands for
  \<^verbatim>\<open>str.upper\<close> on texts of ASCII characters, U+0131 and U+017F: it sends these two
  letters to I and S, as \<^verbatim>\<open>str.upper\<close> does.\<close>

fun uni_upper :: "string \<Rightarrow> string" where
  "uni_upper [] = []"
| "uni_upper [a] = [ascii_upper_char a]"
| "uni_upper (a # b # cs) =
     (if a = CHR 0xC4 \<and> b = CHR 0xB1 then CHR ''I'' # uni_upper cs
      else if a = CHR 0xC5 \<and> b = CHR 0xBF then CHR ''S'' # uni_upper cs
      else ascii_upper_char a # uni_upper (b # cs))"

abbreviation ex_body_uni :: string where
  "ex_body_uni \<equiv> ''requires: a; provides: b; pr'' @ [CHR 0xC4, CHR 0xB1] @ ''ority: low''"

abbreviation ex_gh_uni :: gh_env where
  "ex_gh_uni \<equiv>
     \<lparr>issue_list = (\<lambda>i. \<lparr>returncode = 0,
                           stdout_json = Some (PList [ex_ticket 15 ''Rename field'' ex_body_uni])\<rparr>),
      sub_issue = (\<lambda>i n. \<lparr>returncode = 1, stdout_json = None\<rparr>),
      str_upper = uni_upper\<rparr>"

subsection \<open>Notions for the parser\<close>

text \<open>The title of a normalized candidate.\<close>

definition title_of :: "pydict \<Rightarrow> pyval" where
  "title_of cand = dict_get cand ''title''"

text \<open>The first value of a list of alias values that is true (non-empty), if any.\<close>

fun first_truthy :: "pyval list \<Rightarrow> pyval option" where
  "first_truthy [] = None"
| "first_truthy (v # vs) = (if truthy v then Some v else first_truthy vs)"

text \<open>The raw records that a literal hands to \<^verbatim>\<open>normalize_ticket\<close>, in the order of
  the loops of \<^verbatim>\<open>main\<close>: the items of a list of dicts; the values of a dict whose values
  are all dicts, each after the assignment
  \<^verbatim>\<open>v['canonical_id'] = v.get('canonical_id') or k\<close> (\<open>keyed_record\<close>); any other dict as
  one record; nothing for any other literal.\<close>

fun the_dict :: "pyval \<Rightarrow> pydict" where
  "the_dict (PDict d) = d"
| "the_dict _ = []"

definition keyed_record :: "string \<Rightarrow> pydict \<Rightarrow> pydict" where
  "keyed_record k v = dict_set v ''canonical_id'' (py_or (dict_get v ''canonical_id'') (PStr k))"

fun literal_records :: "pyval \<Rightarrow> pydict list" where
  "literal_records (PList items) =
     (if list_all is_dict items then map the_dict items else [])"
| "literal_records (PDict d) =
     (if list_all (\<lambda>kv. is_dict (snd kv)) d
      then map (\<lambda>kv. keyed_record (fst kv) (the_dict (snd kv))) d
      else [d])"
| "literal_records _ = []"

text \<open>The raw records of a whole run: a file that does not parse gives none.\<close>

fun file_records :: "string \<times> (string + pyval list) \<Rightarrow> pydict list" where
  "file_records (path, Inl msg) = []"
| "file_records (path, Inr literals) = concat (map literal_records literals)"

definition all_records :: "(string \<times> (string + pyval list)) list \<Rightarrow> pydict list" where
  "all_records files = concat (map file_records files)"

text \<open>
  The first-encountered candidate of every title, in the words of the specification:
  a candidate survives when its title is non-empty and no earlier candidate shares it.
  \<open>earlier\<close> holds the non-empty titles of all candidates met so far, kept or not.
\<close>

fun first_wins :: "pyval list \<Rightarrow> pydict list \<Rightarrow> pydict list" where
  "first_wins earlier [] = []"
| "first_wins earlier (c # cs) =
     (if \<not> truthy (title_of c) then first_wins earlier cs
      else if list_ex (\<lambda>s. py_eq s (title_of c)) earlier
           then first_wins (earlier @ [title_of c]) cs
           else c # first_wins (earlier @ [title_of c]) cs)"

text \<open>Candidates handed one after the other to the block that follows
  \<^verbatim>\<open>normalize_ticket\<close>.\<close>

fun add_all :: "parse_state \<Rightarrow> pydict list \<Rightarrow> pyerr + parse_state" where
  "add_all st [] = Inr st"
| "add_all st (c # cs) =
     (case add_candidate st c of Inl e \<Rightarrow> Inl e | Inr st' \<Rightarrow> add_all st' cs)"

subsection \<open>Example data for the parser\<close>

text \<open>Two stand-ins for the built-ins \<^verbatim>\<open>int\<close> and \<^verbatim>\<open>float\<close>, right on the values
  used below: \<^verbatim>\<open>int('8') == 8\<close>, \<^verbatim>\<open>float('2.5') == 2.5\<close>, and both raise on
  \<^verbatim>\<open>'2.5'\<close> respectively \<^verbatim>\<open>'big'\<close>.\<close>

abbreviation ex_int :: "pyval \<Rightarrow> int option" where
  "ex_int \<equiv> (\<lambda>v. case v of PInt n \<Rightarrow> Some n
                      | PStr s \<Rightarrow> (if s = ''8'' then Some 8 else None)
                      | _ \<Rightarrow> None)"

abbreviation ex_float :: "pyval \<Rightarrow> pyfloat option" where
  "ex_float \<equiv> (\<lambda>v. case v of PInt n \<Rightarrow> Some (Fin (of_int n))
                        | PStr s \<Rightarrow> (if s = ''8'' then Some (Fin 8)
                                     else if s = ''2.5'' then Some (Fin (5 / 2)) else None)
                        | _ \<Rightarrow> None)"



abbreviation ex_files :: "(string \<times> (string + pyval list)) list" where
  "ex_files \<equiv>
     [(''create_a.py'', Inr [PList [PDict [(''title'', PStr ''Fix login''), (''points'', PStr ''8'')],
                                    PDict [(''name'', PStr ''Tune cache'')],
                                    PDict [(''body'', PStr ''no title'')] ],
                             PTuple [PDict [(''title'', PStr ''In a tuple'')] ] ]),
      (''broken.py'', Inl ''invalid syntax''),
      (''create_b.py'', Inr [PDict [(''GO-1'', PDict [(''summary'', PStr ''Fix login'')]),
                                    (''GO-2'', PDict [(''title'', PStr ''Write docs'')])] ])]"

section \<open>Properties of compare\_and\_export.py\<close>

lemma py_eq_PStr_right: "py_eq v (PStr t) = (v = PStr t)"
  by (cases v) auto

lemma select_by_title_dicts:
  "list_all is_dict arr \<Longrightarrow>
   select_by_title arr (PStr t) = Inr (filter (same_title t) arr)"
proof (induction arr)
  case Nil
  show ?case by simp
next
  case (Cons item arr)
  then obtain d where "item = PDict d" by (cases item) auto
  with Cons show ?case
    by (simp add: same_title_def py_eq_PStr_right)
qed

lemma gh_issue_list_snapshot:
  "returncode p = 0 \<Longrightarrow> stdout_json p = Some (PList tickets) \<Longrightarrow> list_all is_dict tickets \<Longrightarrow>
   gh_issue_list_by_title p (PStr t) = Inr (filter (same_title t) tickets)"
  by (simp add: gh_issue_list_by_title_def select_by_title_dicts)

lemma match_numbers_ok:
  "list_all has_number ms \<Longrightarrow> match_numbers ms = Inr (map ticket_number ms)"
proof (induction ms)
  case Nil
  show ?case by simp
next
  case (Cons m ms)
  then obtain d where "m = PDict d" by (cases m) (auto simp: has_number_def)
  with Cons show ?case
    by (auto simp: has_number_def ticket_number_def dict_get_def split: option.splits)
qed

lemma loop_body_missing:
  "map_parent_canonical_to_number (dict_get c ''parent_canonical'') im = Inr expected \<Longrightarrow>
   gh_issue_list_by_title (issue_list gh i) (dict_get c ''title'') = Inr [] \<Longrightarrow>
   loop_body gh im i st c =
     Inr (st\<lparr>scanned := scanned st + 1,
             exported := exported st @ [export_record c (dict_get c ''title'') expected]\<rparr>)"
  by (simp add: loop_body_def)

lemma loop_body_ambiguous:
  "map_parent_canonical_to_number (dict_get c ''parent_canonical'') im = Inr expected \<Longrightarrow>
   gh_issue_list_by_title (issue_list gh i) (dict_get c ''title'') = Inr ms \<Longrightarrow>
   1 < length ms \<Longrightarrow> match_numbers ms = Inr nums \<Longrightarrow>
   loop_body gh im i st c =
     Inr (st\<lparr>scanned := scanned st + 1,
             ambiguous := ambiguous st @ [ [(''title'', dict_get c ''title''), (''matches'', PList nums)] ],
             exported := exported st @ [export_record c (dict_get c ''title'') expected]\<rparr>)"
  by (auto simp add: loop_body_def Let_def)

lemma loop_body_single:
  "map_parent_canonical_to_number (dict_get c ''parent_canonical'') im = Inr expected \<Longrightarrow>
   gh_issue_list_by_title (issue_list gh i) (dict_get c ''title'') = Inr [PDict r] \<Longrightarrow>
   body_has_required_fields (str_upper gh) (py_or (dict_get r ''body'') (PStr [])) = Inr body_ok \<Longrightarrow>
   parent_num = (case gh_sub_issue_parent (sub_issue gh i (dict_get r ''number'')) of
                   Inl e \<Rightarrow> PNone | Inr n \<Rightarrow> n) \<Longrightarrow>
   loop_body gh im i st c =
     Inr (if ((expected = PNone \<and> parent_num = PNone) \<or> py_eq expected parent_num) \<and> body_ok
          then st\<lparr>scanned := scanned st + 1, fully_correct := fully_correct st + 1\<rparr>
          else st\<lparr>scanned := scanned st + 1,
                  exported := exported st @
                    [export_record c (dict_get c ''title'') expected @
                     [(''notes'', PDict [(''remote_issue_number'', dict_get r ''number''),
                                         (''remote_parent_number'', parent_num),
                                         (''body_has_required_fields'', PBool body_ok)])] ]\<rparr>)"
  by (simp add: loop_body_def Let_def)


lemma str_contains_sublist: "str_contains f s = sublist f s"
  by (induction s) (simp_all add: sublist_Cons_right)

lemma contains_ci_str_contains: "contains_ci up marker text = str_contains marker (up text)"
  by (simp add: contains_ci_def str_contains_sublist sublist_def)

lemma ascii_upper_pieces:
  "contains_ci ascii_upper marker text =
     (\<exists>pre mid post. text = pre @ mid @ post \<and> ascii_upper mid = marker)"
proof
  assume "contains_ci ascii_upper marker text"
  then obtain ps ss where "map ascii_upper_char text = ps @ marker @ ss"
    by (auto simp: contains_ci_def ascii_upper_def)
  then have "\<exists>us vs. text = us @ vs \<and> ps = map ascii_upper_char us
               \<and> marker @ ss = map ascii_upper_char vs"
    by (simp only: map_eq_append_conv)
  then obtain us vs where uv: "text = us @ vs" "marker @ ss = map ascii_upper_char vs"
    by blast
  from uv(2) have "\<exists>mid post. vs = mid @ post \<and> marker = map ascii_upper_char mid
               \<and> ss = map ascii_upper_char post"
    by (simp only: append_eq_map_conv)
  then obtain mid post where "vs = mid @ post" "map ascii_upper_char mid = marker"
    by auto
  with uv(1) show "\<exists>pre mid post. text = pre @ mid @ post \<and> ascii_upper mid = marker"
    unfolding ascii_upper_def by blast
next
  assume "\<exists>pre mid post. text = pre @ mid @ post \<and> ascii_upper mid = marker"
  then obtain pre mid post where "text = pre @ mid @ post" "map ascii_upper_char mid = marker"
    unfolding ascii_upper_def by blast
  then have "ascii_upper text = ascii_upper pre @ marker @ ascii_upper post"
    by (simp add: ascii_upper_def)
  then show "contains_ci ascii_upper marker text"
    unfolding contains_ci_def by blast
qed

lemma body_has_required_fields_str:
  "py_or b (PStr []) = PStr body \<Longrightarrow>
   body_has_required_fields up (py_or b (PStr [])) =
     Inr (body \<noteq> [] \<and> contains_ci up ''REQUIRES'' body \<and> contains_ci up ''PROVIDES'' body
          \<and> contains_ci up ''PRIORITY'' body)"
  by (simp add: body_has_required_fields_def REQUIRE_FIELDS_def contains_ci_str_contains)


text \<open>
  C1. Take a candidate whose title is the string \<open>t\<close> and whose expected parent
  resolves, and a snapshot that the query returns as a list of JSON objects. If no
  ticket of the snapshot carries exactly the title \<open>t\<close>, the iteration exports the
  candidate (Missing: the plain record, no counter of correct tickets moves). If two or
  more do, the iteration never counts the candidate as correct and always exports it,
  whatever the bodies and parents of the matches are; with numbered tickets it also
  records the numbers of all matches in the list of ambiguous titles.
\<close>

theorem C1_missing_and_ambiguous:
  assumes "dict_get c ''title'' = PStr t"
    and "map_parent_canonical_to_number (dict_get c ''parent_canonical'') im = Inr expected"
    and "returncode (issue_list gh i) = 0"
    and "stdout_json (issue_list gh i) = Some (PList tickets)"
    and "list_all is_dict tickets"
  shows "(filter (same_title t) tickets = [] \<longrightarrow>
            loop_body gh im i st c =
              Inr (st\<lparr>scanned := scanned st + 1,
                      exported := exported st @ [export_record c (PStr t) expected]\<rparr>))
       \<and> (2 \<le> length (filter (same_title t) tickets) \<longrightarrow>
            (\<forall>st'. loop_body gh im i st c = Inr st' \<longrightarrow>
               fully_correct st' = fully_correct st
               \<and> exported st' = exported st @ [export_record c (PStr t) expected]))
       \<and> (2 \<le> length (filter (same_title t) tickets) \<and> list_all has_number tickets \<longrightarrow>
            loop_body gh im i st c =
              Inr (st\<lparr>scanned := scanned st + 1,
                      ambiguous := ambiguous st @
                        [ [(''title'', PStr t),
                          (''matches'', PList (map ticket_number (filter (same_title t) tickets)))] ],
                      exported := exported st @ [export_record c (PStr t) expected]\<rparr>))"
proof -
  let ?ms = "filter (same_title t) tickets"
  have q: "gh_issue_list_by_title (issue_list gh i) (dict_get c ''title'') = Inr ?ms"
    using assms by (simp add: gh_issue_list_snapshot)
  have missing: "?ms = [] \<Longrightarrow> loop_body gh im i st c =
      Inr (st\<lparr>scanned := scanned st + 1,
              exported := exported st @ [export_record c (PStr t) expected]\<rparr>)"
    using loop_body_missing [OF assms(2), of gh i st] q assms(1) by simp
  have amb: "loop_body gh im i st c =
      Inr (st\<lparr>scanned := scanned st + 1,
              ambiguous := ambiguous st @ [ [(''title'', PStr t), (''matches'', PList nums)] ],
              exported := exported st @ [export_record c (PStr t) expected]\<rparr>)"
    if "2 \<le> length ?ms" "match_numbers ?ms = Inr nums" for nums
    using loop_body_ambiguous [OF assms(2) q _ that(2), of st] that(1) assms(1) by simp
  have never: "fully_correct st' = fully_correct st
      \<and> exported st' = exported st @ [export_record c (PStr t) expected]"
    if "2 \<le> length ?ms" "loop_body gh im i st c = Inr st'" for st'
  proof (cases "match_numbers ?ms")
    case (Inl e)
    have "loop_body gh im i st c = Inl e"
      using that(1) q assms(2) Inl by (auto simp: loop_body_def Let_def)
    with that(2) show ?thesis by simp
  next
    case (Inr nums)
    from amb [OF that(1) Inr] that(2) show ?thesis by auto
  qed
  have nums: "match_numbers ?ms = Inr (map ticket_number ?ms)" if "list_all has_number tickets"
    using that by (intro match_numbers_ok) (simp add: list_all_iff)
  show ?thesis
    using missing never amb nums by blast
qed

theorem C1_missing_and_ambiguous_witness:
  "loop_body ex_gh ex_map 0 init_state (ex_cand ''fix login'' PNone) =
     Inr (init_state\<lparr>scanned := scanned init_state + 1,
            exported := exported init_state @
              [export_record (ex_cand ''fix login'' PNone) (PStr ''fix login'') PNone]\<rparr>)
   \<and> loop_body ex_gh ex_map 0 init_state (ex_cand ''Fix login'' PNone) =
     Inr (init_state\<lparr>scanned := scanned init_state + 1,
            ambiguous := ambiguous init_state @
              [ [(''title'', PStr ''Fix login''), (''matches'', PList [PInt 11, PInt 12])] ],
            exported := exported init_state @
              [export_record (ex_cand ''Fix login'' PNone) (PStr ''Fix login'') PNone]\<rparr>)"
proof -
  have p: "map_parent_canonical_to_number (dict_get (ex_cand t PNone) ''parent_canonical'') ex_map
           = Inr PNone" for t
    by (simp add: dict_get_def map_parent_canonical_to_number_def)
  have t: "dict_get (ex_cand t PNone) ''title'' = PStr t" for t
    by (simp add: dict_get_def)
  have r: "returncode (issue_list ex_gh 0) = 0"
    and o: "stdout_json (issue_list ex_gh 0) = Some (PList ex_tickets)"
    and d: "list_all is_dict ex_tickets"
    by simp_all
  have f1: "filter (same_title ''fix login'') ex_tickets = []"
    unfolding same_title_def by (simp add: dict_get_def)
  have f2: "filter (same_title ''Fix login'') ex_tickets =
      [ex_ticket 11 ''Fix login'' ''Requires: a. Provides: b. Priority: low'',
       ex_ticket 12 ''Fix login'' [] ]"
    unfolding same_title_def by (simp add: dict_get_def)
  have n: "list_all has_number ex_tickets"
    by (simp add: has_number_def)
  have m: "map ticket_number (filter (same_title ''Fix login'') ex_tickets) = [PInt 11, PInt 12]"
    unfolding f2 by (simp add: ticket_number_def dict_get_def)
  from C1_missing_and_ambiguous [OF t p r o d, of "''fix login''" init_state] f1
  have a: "loop_body ex_gh ex_map 0 init_state (ex_cand ''fix login'' PNone) =
     Inr (init_state\<lparr>scanned := scanned init_state + 1,
            exported := exported init_state @
              [export_record (ex_cand ''fix login'' PNone) (PStr ''fix login'') PNone]\<rparr>)"
    by blast
  have len: "2 \<le> length (filter (same_title ''Fix login'') ex_tickets)"
    unfolding f2 by simp
  from C1_missing_and_ambiguous [OF t p r o d, of "''Fix login''" init_state] len n
  have b: "loop_body ex_gh ex_map 0 init_state (ex_cand ''Fix login'' PNone) =
     Inr (init_state\<lparr>scanned := scanned init_state + 1,
            ambiguous := ambiguous init_state @
              [ [(''title'', PStr ''Fix login''),
                (''matches'', PList (map ticket_number (filter (same_title ''Fix login'') ex_tickets)))] ],
            exported := exported init_state @
              [export_record (ex_cand ''Fix login'' PNone) (PStr ''Fix login'') PNone]\<rparr>)"
    by blast
  show ?thesis
    using a b unfolding m by (rule conjI)
qed

lemma loop_body_step:
  assumes "loop_body gh im i st c = Inr st'"
  shows "scanned st' = scanned st + 1
     \<and> ((fully_correct st' = fully_correct st + 1 \<and> exported st' = exported st
          \<and> ambiguous st' = ambiguous st)
        \<or> (fully_correct st' = fully_correct st \<and> (\<exists>r. exported st' = exported st @ [r])
          \<and> (ambiguous st' = ambiguous st \<or> (\<exists>a. ambiguous st' = ambiguous st @ [a]))))"
  using assms
  by (auto simp: loop_body_def Let_def split: sum.splits if_splits)

lemma main_loop_invariant:
  "main_loop gh im i st cs = Inr st' \<Longrightarrow>
   scanned st = fully_correct st + length (exported st) \<Longrightarrow>
   length (ambiguous st) \<le> length (exported st) \<Longrightarrow>
   scanned st' = scanned st + length cs
   \<and> scanned st' = fully_correct st' + length (exported st')
   \<and> length (ambiguous st') \<le> length (exported st')"
proof (induction cs arbitrary: i st)
  case Nil
  then show ?case by simp
next
  case (Cons c cs)
  from Cons.prems(1) obtain st1 where b: "loop_body gh im i st c = Inr st1"
    and r: "main_loop gh im (Suc i) st1 cs = Inr st'"
    by (auto split: sum.splits)
  from loop_body_step [OF b] Cons.prems(2,3)
  have "scanned st1 = scanned st + 1"
    "scanned st1 = fully_correct st1 + length (exported st1)"
    "length (ambiguous st1) \<le> length (exported st1)"
    by auto
  with Cons.IH [OF r] show ?case by simp
qed

lemma main_loop_append:
  "main_loop gh im i st (xs @ ys) =
     (case main_loop gh im i st xs of
        Inl e \<Rightarrow> Inl e
      | Inr st' \<Rightarrow> main_loop gh im (i + length xs) st' ys)"
  by (induction xs arbitrary: i st) (auto split: sum.splits)

text \<open>
  C10. Every iteration that completes adds one to \<open>scanned\<close> and either adds one to
  \<open>fully_correct\<close> or appends one record to \<open>exported\<close>, never both. Hence in every
  run that reaches its end the number of scanned candidates is the number of candidates,
  it equals \<open>fully_correct\<close> plus the number of exported records, and the number of
  ambiguous titles is at most the number of exported records.
\<close>

theorem C10_counters:
  "(loop_body gh im i st c = Inr st' \<longrightarrow>
      scanned st' = scanned st + 1
      \<and> ((fully_correct st' = fully_correct st + 1 \<and> exported st' = exported st)
         \<or> (fully_correct st' = fully_correct st \<and> (\<exists>r. exported st' = exported st @ [r]))))
   \<and> (main gh (Some cs) mf = Finished ex fin \<longrightarrow>
      ex = exported fin
      \<and> scanned fin = length cs
      \<and> scanned fin = fully_correct fin + length ex
      \<and> length (ambiguous fin) \<le> length ex)"
proof (intro conjI impI)
  assume "loop_body gh im i st c = Inr st'"
  from loop_body_step [OF this]
  show "scanned st' = scanned st + 1" 
    and "(fully_correct st' = fully_correct st + 1 \<and> exported st' = exported st)
         \<or> (fully_correct st' = fully_correct st \<and> (\<exists>r. exported st' = exported st @ [r]))"
    by auto
next
  assume m: "main gh (Some cs) mf = Finished ex fin"
  let ?im = "case mf of None \<Rightarrow> [] | Some m \<Rightarrow> m"
  from m have l: "main_loop gh ?im 0 init_state cs = Inr fin" and e: "ex = exported fin"
    by (auto simp: main_def Let_def split: sum.splits pyerr.splits)
  from main_loop_invariant [OF l] 
  have "scanned fin = length cs" "scanned fin = fully_correct fin + length (exported fin)"
    "length (ambiguous fin) \<le> length (exported fin)"
    by (simp_all add: init_state_def)
  with e show "ex = exported fin" "scanned fin = length cs"
    "scanned fin = fully_correct fin + length ex" "length (ambiguous fin) \<le> length ex"
    by simp_all
qed

lemma ex_run_finishes:
  "(case main ex_gh (Some ex_cands) (Some ex_map) of
      Finished ex fin \<Rightarrow> fully_correct fin = 1 \<and> length ex = 3 \<and> length (ambiguous fin) = 1
    | _ \<Rightarrow> False)"
  by code_simp

theorem C10_counters_witness:
  "\<exists>ex fin. main ex_gh (Some ex_cands) (Some ex_map) = Finished ex fin
      \<and> fully_correct fin = 1 \<and> length ex = 3 \<and> length (ambiguous fin) = 1
      \<and> scanned fin = length ex_cands
      \<and> scanned fin = fully_correct fin + length ex
      \<and> length (ambiguous fin) \<le> length ex"
proof -
  from ex_run_finishes obtain ex fin
    where m: "main ex_gh (Some ex_cands) (Some ex_map) = Finished ex fin"
      and v: "fully_correct fin = 1" "length ex = 3" "length (ambiguous fin) = 1"
    by (auto split: run_result.splits)
  from C10_counters [of ex_gh ex_map 0 init_state "[]" init_state ex_cands "Some ex_map" ex fin] m
  have "scanned fin = length ex_cands \<and> scanned fin = fully_correct fin + length ex
        \<and> length (ambiguous fin) \<le> length ex"
    by blast
  with m v show ?thesis by blast
qed

text \<open>
  C2. Take a candidate whose title is the string \<open>t\<close> and whose expected parent
  resolves, and a snapshot in which exactly one ticket carries exactly the title \<open>t\<close>,
  with a textual (or absent) body. The iteration counts the candidate as correct, and
  exports nothing for it, if and only if the body, once \<^verbatim>\<open>str.upper\<close> has brought it to
  upper case, contains each of REQUIRES, PROVIDES and PRIORITY (an empty body contains
  none), and the parent resolved for the remote ticket equals the expected parent or both
  are None. Otherwise it exports the candidate with a \<^verbatim>\<open>notes\<close> entry that carries the
  number of the remote ticket, its resolved parent and whether the body was complete.
  For a body on which \<^verbatim>\<open>str.upper\<close> moves only the letters a to z (every ASCII body),
  a marker is contained exactly when some contiguous piece of the body is the marker up
  to the case of these letters. (On other bodies \<^verbatim>\<open>str.upper\<close> decides: a body that
  spells priority with the letter U+0131 is complete.)
\<close>

theorem C2_single_match:
  assumes "dict_get c ''title'' = PStr t"
    and "map_parent_canonical_to_number (dict_get c ''parent_canonical'') im = Inr expected"
    and "returncode (issue_list gh i) = 0"
    and "stdout_json (issue_list gh i) = Some (PList tickets)"
    and "list_all is_dict tickets"
    and "filter (same_title t) tickets = [PDict r]"
    and "py_or (dict_get r ''body'') (PStr []) = PStr body"
    and "parent_num = (case gh_sub_issue_parent (sub_issue gh i (dict_get r ''number'')) of
                         Inl e \<Rightarrow> PNone | Inr n \<Rightarrow> n)"
  shows "loop_body gh im i st c =
     Inr (if (body \<noteq> [] \<and> contains_ci (str_upper gh) ''REQUIRES'' body
              \<and> contains_ci (str_upper gh) ''PROVIDES'' body
              \<and> contains_ci (str_upper gh) ''PRIORITY'' body)
             \<and> ((expected = PNone \<and> parent_num = PNone) \<or> py_eq expected parent_num)
          then st\<lparr>scanned := scanned st + 1, fully_correct := fully_correct st + 1\<rparr>
          else st\<lparr>scanned := scanned st + 1,
                  exported := exported st @
                    [export_record c (PStr t) expected @
                     [(''notes'', PDict
                        [(''remote_issue_number'', dict_get r ''number''),
                         (''remote_parent_number'', parent_num),
                         (''body_has_required_fields'',
                            PBool (body \<noteq> [] \<and> contains_ci (str_upper gh) ''REQUIRES'' body
                                   \<and> contains_ci (str_upper gh) ''PROVIDES'' body
                                   \<and> contains_ci (str_upper gh) ''PRIORITY'' body))])] ]\<rparr>)
   \<and> (str_upper gh body = ascii_upper body \<longrightarrow>
        (\<forall>marker. contains_ci (str_upper gh) marker body =
           (\<exists>pre mid post. body = pre @ mid @ post \<and> ascii_upper mid = marker)))"
proof
  have q: "gh_issue_list_by_title (issue_list gh i) (dict_get c ''title'') = Inr [PDict r]"
    using assms(1,3,4,5,6) by (simp add: gh_issue_list_snapshot)
  from loop_body_single [OF assms(2) q body_has_required_fields_str [OF assms(7)] assms(8), of st]
  show "loop_body gh im i st c =
     Inr (if (body \<noteq> [] \<and> contains_ci (str_upper gh) ''REQUIRES'' body
              \<and> contains_ci (str_upper gh) ''PROVIDES'' body
              \<and> contains_ci (str_upper gh) ''PRIORITY'' body)
             \<and> ((expected = PNone \<and> parent_num = PNone) \<or> py_eq expected parent_num)
          then st\<lparr>scanned := scanned st + 1, fully_correct := fully_correct st + 1\<rparr>
          else st\<lparr>scanned := scanned st + 1,
                  exported := exported st @
                    [export_record c (PStr t) expected @
                     [(''notes'', PDict
                        [(''remote_issue_number'', dict_get r ''number''),
                         (''remote_parent_number'', parent_num),
                         (''body_has_required_fields'',
                            PBool (body \<noteq> [] \<and> contains_ci (str_upper gh) ''REQUIRES'' body
                                   \<and> contains_ci (str_upper gh) ''PROVIDES'' body
                                   \<and> contains_ci (str_upper gh) ''PRIORITY'' body))])] ]\<rparr>)"
    by (auto simp: assms(1))
next
  show "str_upper gh body = ascii_upper body \<longrightarrow>
        (\<forall>marker. contains_ci (str_upper gh) marker body =
           (\<exists>pre mid post. body = pre @ mid @ post \<and> ascii_upper mid = marker))"
  proof (intro impI allI)
    fix marker
    assume "str_upper gh body = ascii_upper body"
    then have "contains_ci (str_upper gh) marker body = contains_ci ascii_upper marker body"
      by (simp add: contains_ci_def)
    then show "contains_ci (str_upper gh) marker body =
           (\<exists>pre mid post. body = pre @ mid @ post \<and> ascii_upper mid = marker)"
      by (simp only: ascii_upper_pieces)
  qed
qed

theorem C2_single_match_witness:
  "loop_body ex_gh ex_map 0 init_state (ex_cand ''Add caching layer'' (PStr ''CORE-1'')) =
     Inr (init_state\<lparr>scanned := scanned init_state + 1,
                      fully_correct := fully_correct init_state + 1\<rparr>)
   \<and> loop_body ex_gh ex_map 0 init_state (ex_cand ''Tune cache'' PNone) =
     Inr (init_state\<lparr>scanned := scanned init_state + 1,
            exported := exported init_state @
              [export_record (ex_cand ''Tune cache'' PNone) (PStr ''Tune cache'') PNone @
               [(''notes'', PDict [(''remote_issue_number'', PInt 14),
                                   (''remote_parent_number'', PNone),
                                   (''body_has_required_fields'', PBool False)])] ]\<rparr>)
   \<and> (\<exists>pre mid post. ''requires: x; PROVIDES: y; Priority: high'' = pre @ mid @ post
         \<and> ascii_upper mid = ''PRIORITY'')
   \<and> loop_body ex_gh_uni ex_map 0 init_state (ex_cand ''Rename field'' PNone) =
     Inr (init_state\<lparr>scanned := scanned init_state + 1,
                      fully_correct := fully_correct init_state + 1\<rparr>)"
proof -
  have r: "returncode (issue_list ex_gh 0) = 0"
    and o: "stdout_json (issue_list ex_gh 0) = Some (PList ex_tickets)"
    and d: "list_all is_dict ex_tickets"
    by simp_all
  let ?b13 = "''requires: x; PROVIDES: y; Priority: high''"
  let ?r13 = "[(''number'', PInt 13), (''title'', PStr ''Add caching layer''), (''body'', PStr ?b13)]"
  let ?r14 = "[(''number'', PInt 14), (''title'', PStr ''Tune cache''), (''body'', PStr ''REQUIRES: x'')]"
  have t: "dict_get (ex_cand t p) ''title'' = PStr t" for t p
    by (simp add: dict_get_def)
  have p1: "map_parent_canonical_to_number
              (dict_get (ex_cand ''Add caching layer'' (PStr ''CORE-1'')) ''parent_canonical'') ex_map
            = Inr (PInt 42)"
    by (simp add: dict_get_def map_parent_canonical_to_number_def)
  have p2: "map_parent_canonical_to_number
              (dict_get (ex_cand ''Tune cache'' PNone) ''parent_canonical'') ex_map = Inr PNone"
    by (simp add: dict_get_def map_parent_canonical_to_number_def)
  have f1: "filter (same_title ''Add caching layer'') ex_tickets = [PDict ?r13]"
    unfolding same_title_def by (simp add: dict_get_def)
  have f2: "filter (same_title ''Tune cache'') ex_tickets = [PDict ?r14]"
    unfolding same_title_def by (simp add: dict_get_def)
  have b1: "py_or (dict_get ?r13 ''body'') (PStr []) = PStr ?b13"
    by (simp add: dict_get_def py_or_def)
  have b2: "py_or (dict_get ?r14 ''body'') (PStr []) = PStr ''REQUIRES: x''"
    by (simp add: dict_get_def py_or_def)
  have n1: "PInt 42 = (case gh_sub_issue_parent (sub_issue ex_gh 0 (dict_get ?r13 ''number'')) of
                         Inl e \<Rightarrow> PNone | Inr n \<Rightarrow> n)"
    by (simp add: dict_get_def gh_sub_issue_parent_def)
  have n2: "PNone = (case gh_sub_issue_parent (sub_issue ex_gh 0 (dict_get ?r14 ''number'')) of
                         Inl e \<Rightarrow> PNone | Inr n \<Rightarrow> n)"
    by (simp add: dict_get_def gh_sub_issue_parent_def)
  have m1: "contains_ci ascii_upper ''REQUIRES'' ?b13 \<and> contains_ci ascii_upper ''PROVIDES'' ?b13
            \<and> contains_ci ascii_upper ''PRIORITY'' ?b13"
    by (simp add: contains_ci_str_contains ascii_upper_def ascii_upper_char_def)
  have m2: "\<not> contains_ci ascii_upper ''PROVIDES'' ''REQUIRES: x''"
    by (simp add: contains_ci_str_contains ascii_upper_def ascii_upper_char_def)
  note T1 = C2_single_match [OF t p1 r o d f1 b1 n1, of init_state]
  have a: "loop_body ex_gh ex_map 0 init_state (ex_cand ''Add caching layer'' (PStr ''CORE-1'')) =
     Inr (init_state\<lparr>scanned := scanned init_state + 1,
                      fully_correct := fully_correct init_state + 1\<rparr>)"
    using T1 [THEN conjunct1] m1 by simp
  have b: "loop_body ex_gh ex_map 0 init_state (ex_cand ''Tune cache'' PNone) =
     Inr (init_state\<lparr>scanned := scanned init_state + 1,
            exported := exported init_state @
              [export_record (ex_cand ''Tune cache'' PNone) (PStr ''Tune cache'') PNone @
               [(''notes'', PDict [(''remote_issue_number'', PInt 14),
                                   (''remote_parent_number'', PNone),
                                   (''body_has_required_fields'', PBool False)])] ]\<rparr>)"
    using C2_single_match [OF t p2 r o d f2 b2 n2, of init_state, THEN conjunct1] m2
    by (simp add: dict_get_def)
  have c: "\<exists>pre mid post. ?b13 = pre @ mid @ post \<and> ascii_upper mid = ''PRIORITY''"
    using T1 [THEN conjunct2] m1 by simp
  let ?r15 = "[(''number'', PInt 15), (''title'', PStr ''Rename field''),
               (''body'', PStr ex_body_uni)]"
  have r': "returncode (issue_list ex_gh_uni 0) = 0"
    and o': "stdout_json (issue_list ex_gh_uni 0)
             = Some (PList [ex_ticket 15 ''Rename field'' ex_body_uni])"
    and d': "list_all is_dict [ex_ticket 15 ''Rename field'' ex_body_uni]"
    by simp_all
  have p3: "map_parent_canonical_to_number
              (dict_get (ex_cand ''Rename field'' PNone) ''parent_canonical'') ex_map = Inr PNone"
    by (simp add: dict_get_def map_parent_canonical_to_number_def)
  have f3: "filter (same_title ''Rename field'') [ex_ticket 15 ''Rename field'' ex_body_uni]
            = [PDict ?r15]"
    unfolding same_title_def by (simp add: dict_get_def)
  have b3: "py_or (dict_get ?r15 ''body'') (PStr []) = PStr ex_body_uni"
    by (simp add: dict_get_def py_or_def)
  have n3: "PNone = (case gh_sub_issue_parent (sub_issue ex_gh_uni 0 (dict_get ?r15 ''number'')) of
                       Inl e \<Rightarrow> PNone | Inr n \<Rightarrow> n)"
    by (simp add: dict_get_def gh_sub_issue_parent_def)
  have m3: "contains_ci uni_upper ''REQUIRES'' ex_body_uni
            \<and> contains_ci uni_upper ''PROVIDES'' ex_body_uni
            \<and> contains_ci uni_upper ''PRIORITY'' ex_body_uni"
    by (simp add: contains_ci_str_contains ascii_upper_char_def)
  have d: "loop_body ex_gh_uni ex_map 0 init_state (ex_cand ''Rename field'' PNone) =
     Inr (init_state\<lparr>scanned := scanned init_state + 1,
                      fully_correct := fully_correct init_state + 1\<rparr>)"
    using C2_single_match [OF t p3 r' o' d' f3 b3 n3, of init_state, THEN conjunct1] m3
    by simp
  from a b c d show ?thesis by (intro conjI)
qed

lemma export_record_keys:
  "map fst (export_record c title expected) =
     [''issue_number'', ''canonical_id'', ''title'', ''body'', ''labels'', ''state'',
      ''parent_issue_number'', ''requires'', ''provides'', ''points'', ''priority'',
      ''created_at'', ''url'']"
  by (simp add: export_record_def)

text \<open>
  C6 (as amended). When two or more tickets of the snapshot carry the title of a
  candidate, the iteration appends to the separate list \<^verbatim>\<open>ambiguous\<close> (which
  \<^verbatim>\<open>main\<close> only prints) one entry with the title and the numbers of all matching
  tickets, so that the count of ambiguous titles grows by one; the exported record is
  the plain one of thirteen entries and carries no annotation.
\<close>

theorem C6_ambiguity_record:
  assumes "dict_get c ''title'' = PStr t"
    and "map_parent_canonical_to_number (dict_get c ''parent_canonical'') im = Inr expected"
    and "returncode (issue_list gh i) = 0"
    and "stdout_json (issue_list gh i) = Some (PList tickets)"
    and "list_all is_dict tickets"
    and "list_all has_number tickets"
    and "2 \<le> length (filter (same_title t) tickets)"
  shows "\<exists>st'. loop_body gh im i st c = Inr st'
     \<and> ambiguous st' = ambiguous st @
           [ [(''title'', PStr t),
             (''matches'', PList (map ticket_number (filter (same_title t) tickets)))] ]
     \<and> length (ambiguous st') = length (ambiguous st) + 1
     \<and> exported st' = exported st @ [export_record c (PStr t) expected]
     \<and> map fst (last (exported st')) =
           [''issue_number'', ''canonical_id'', ''title'', ''body'', ''labels'', ''state'',
            ''parent_issue_number'', ''requires'', ''provides'', ''points'', ''priority'',
            ''created_at'', ''url'']"
proof -
  let ?ms = "filter (same_title t) tickets"
  have q: "gh_issue_list_by_title (issue_list gh i) (dict_get c ''title'') = Inr ?ms"
    using assms by (simp add: gh_issue_list_snapshot)
  have nums: "match_numbers ?ms = Inr (map ticket_number ?ms)"
    using assms(6) by (intro match_numbers_ok) (simp add: list_all_iff)
  have len: "1 < length ?ms"
    using assms(7) by simp
  show ?thesis
    unfolding loop_body_ambiguous [OF assms(2) q len nums, of st]
    by (simp add: assms(1) export_record_keys)
qed

theorem C6_ambiguity_record_witness:
  "\<exists>st'. loop_body ex_gh ex_map 0 init_state (ex_cand ''Fix login'' PNone) = Inr st'
     \<and> ambiguous st' = ambiguous init_state @
           [ [(''title'', PStr ''Fix login''), (''matches'', PList [PInt 11, PInt 12])] ]
     \<and> length (ambiguous st') = length (ambiguous init_state) + 1
     \<and> exported st' = exported init_state @
           [export_record (ex_cand ''Fix login'' PNone) (PStr ''Fix login'') PNone]"
proof -
  have t: "dict_get (ex_cand ''Fix login'' PNone) ''title'' = PStr ''Fix login''"
    by (simp add: dict_get_def)
  have p: "map_parent_canonical_to_number
             (dict_get (ex_cand ''Fix login'' PNone) ''parent_canonical'') ex_map = Inr PNone"
    by (simp add: dict_get_def map_parent_canonical_to_number_def)
  have r: "returncode (issue_list ex_gh 0) = 0"
    and o: "stdout_json (issue_list ex_gh 0) = Some (PList ex_tickets)"
    and d: "list_all is_dict ex_tickets"
    by simp_all
  have n: "list_all has_number ex_tickets"
    by (simp add: has_number_def)
  have f: "filter (same_title ''Fix login'') ex_tickets =
      [ex_ticket 11 ''Fix login'' ''Requires: a. Provides: b. Priority: low'',
       ex_ticket 12 ''Fix login'' [] ]"
    unfolding same_title_def by (simp add: dict_get_def)
  have len: "2 \<le> length (filter (same_title ''Fix login'') ex_tickets)"
    unfolding f by simp
  have m: "map ticket_number (filter (same_title ''Fix login'') ex_tickets) = [PInt 11, PInt 12]"
    unfolding f by (simp add: ticket_number_def dict_get_def)
  from C6_ambiguity_record [OF t p r o d n len, of init_state]
  show ?thesis
    unfolding m by blast
qed

text \<open>
  C6 as it was stated fails: with the tickets 11 and 12 both titled as the candidate,
  the exported record has no entry for the matches and no \<^verbatim>\<open>notes\<close>, and the list of
  the two numbers occurs nowhere in it; the numbers are in \<^verbatim>\<open>ambiguous\<close> only.
\<close>

theorem C6_counterexample:
  "loop_body ex_gh ex_map 0 init_state (ex_cand ''Fix login'' PNone) =
     Inr \<lparr>exported = [export_record (ex_cand ''Fix login'' PNone) (PStr ''Fix login'') PNone],
          scanned = 1, fully_correct = 0,
          ambiguous = [ [(''title'', PStr ''Fix login''),
                        (''matches'', PList [PInt 11, PInt 12])] ]\<rparr>
   \<and> map_of (export_record (ex_cand ''Fix login'' PNone) (PStr ''Fix login'') PNone) ''matches''
       = None
   \<and> map_of (export_record (ex_cand ''Fix login'' PNone) (PStr ''Fix login'') PNone) ''notes''
       = None
   \<and> PList [PInt 11, PInt 12] \<notin>
       snd ` set (export_record (ex_cand ''Fix login'' PNone) (PStr ''Fix login'') PNone)"
  by code_simp

lemma map_parent_error:
  "map_parent_canonical_to_number pc im = Inl e \<Longrightarrow> e = TypeError"
  by (cases pc) (auto simp: map_parent_canonical_to_number_def split: if_splits option.splits)

text \<open>
  C9. If the title query of some iteration fails (a non-zero return code, or output
  that does not decode) after the earlier iterations completed, the run ends with status
  1 and writes no export file; it is the \<^verbatim>\<open>sys.exit(1)\<close> of the handler whenever the
  expected parent of that candidate resolves. A failure of the parent lookup for the one
  matching ticket (a non-zero return code, output that does not decode, or an exception
  inside \<^verbatim>\<open>gh_sub_issue_parent\<close>) does not end the iteration: it completes as with a
  ticket that has no parent.
\<close>

theorem C9_failures:
  "(main_loop gh (case mf of None \<Rightarrow> [] | Some m \<Rightarrow> m) 0 init_state pre = Inr st0
      \<and> (returncode (issue_list gh (length pre)) \<noteq> 0
         \<or> stdout_json (issue_list gh (length pre)) = None) \<longrightarrow>
      exit_status (main gh (Some (pre @ c # post)) mf) = 1
      \<and> written (main gh (Some (pre @ c # post)) mf) = None
      \<and> ((\<exists>expected. map_parent_canonical_to_number (dict_get c ''parent_canonical'')
              (case mf of None \<Rightarrow> [] | Some m \<Rightarrow> m) = Inr expected) \<longrightarrow>
          main gh (Some (pre @ c # post)) mf = Exited 1))
   \<and> (dict_get c ''title'' = PStr t
      \<and> map_parent_canonical_to_number (dict_get c ''parent_canonical'') im = Inr expected
      \<and> returncode (issue_list gh i) = 0
      \<and> stdout_json (issue_list gh i) = Some (PList tickets)
      \<and> list_all is_dict tickets
      \<and> filter (same_title t) tickets = [PDict r]
      \<and> py_or (dict_get r ''body'') (PStr []) = PStr body
      \<and> (returncode (sub_issue gh i (dict_get r ''number'')) \<noteq> 0
         \<or> stdout_json (sub_issue gh i (dict_get r ''number'')) = None
         \<or> (\<exists>e. gh_sub_issue_parent (sub_issue gh i (dict_get r ''number'')) = Inl e)) \<longrightarrow>
      loop_body gh im i st c =
        Inr (if (body \<noteq> [] \<and> contains_ci (str_upper gh) ''REQUIRES'' body
                 \<and> contains_ci (str_upper gh) ''PROVIDES'' body
                 \<and> contains_ci (str_upper gh) ''PRIORITY'' body) \<and> expected = PNone
             then st\<lparr>scanned := scanned st + 1, fully_correct := fully_correct st + 1\<rparr>
             else st\<lparr>scanned := scanned st + 1,
                     exported := exported st @
                       [export_record c (PStr t) expected @
                        [(''notes'', PDict
                           [(''remote_issue_number'', dict_get r ''number''),
                            (''remote_parent_number'', PNone),
                            (''body_has_required_fields'',
                               PBool (body \<noteq> [] \<and> contains_ci (str_upper gh) ''REQUIRES'' body
                                      \<and> contains_ci (str_upper gh) ''PROVIDES'' body
                                      \<and> contains_ci (str_upper gh) ''PRIORITY'' body))])] ]\<rparr>))"
proof (intro conjI impI)
  let ?im = "case mf of None \<Rightarrow> [] | Some m \<Rightarrow> m"
  assume a: "main_loop gh ?im 0 init_state pre = Inr st0
      \<and> (returncode (issue_list gh (length pre)) \<noteq> 0
         \<or> stdout_json (issue_list gh (length pre)) = None)"
  then have q: "\<exists>e. gh_issue_list_by_title (issue_list gh (length pre)) (dict_get c ''title'') = Inl e"
    by (auto simp: gh_issue_list_by_title_def)
  have b: "loop_body gh ?im (length pre) st0 c =
      (case map_parent_canonical_to_number (dict_get c ''parent_canonical'') ?im of
         Inl e \<Rightarrow> Inl e | Inr expected \<Rightarrow> Inl (SystemExit 1))"
    using q by (auto simp: loop_body_def Let_def split: sum.splits)
  have l: "main_loop gh ?im 0 init_state (pre @ c # post) = loop_body gh ?im (length pre) st0 c
      \<and> (\<exists>e. loop_body gh ?im (length pre) st0 c = Inl e)"
    using a b by (auto simp: main_loop_append split: sum.splits)
  then obtain e where e: "main_loop gh ?im 0 init_state (pre @ c # post) = Inl e"
    by auto
  then show "exit_status (main gh (Some (pre @ c # post)) mf) = 1"
    using l b by (cases e) (auto simp: main_def Let_def split: sum.splits dest: map_parent_error)
  from e show "written (main gh (Some (pre @ c # post)) mf) = None"
    by (cases e) (auto simp: main_def Let_def)
  show "main gh (Some (pre @ c # post)) mf = Exited 1"
    if "\<exists>expected. map_parent_canonical_to_number (dict_get c ''parent_canonical'') ?im
          = Inr expected"
    using that l b by (auto simp: main_def Let_def)
next
  assume a: "dict_get c ''title'' = PStr t
      \<and> map_parent_canonical_to_number (dict_get c ''parent_canonical'') im = Inr expected
      \<and> returncode (issue_list gh i) = 0
      \<and> stdout_json (issue_list gh i) = Some (PList tickets)
      \<and> list_all is_dict tickets
      \<and> filter (same_title t) tickets = [PDict r]
      \<and> py_or (dict_get r ''body'') (PStr []) = PStr body
      \<and> (returncode (sub_issue gh i (dict_get r ''number'')) \<noteq> 0
         \<or> stdout_json (sub_issue gh i (dict_get r ''number'')) = None
         \<or> (\<exists>e. gh_sub_issue_parent (sub_issue gh i (dict_get r ''number'')) = Inl e))"
  then have n: "PNone = (case gh_sub_issue_parent (sub_issue gh i (dict_get r ''number'')) of
                           Inl e \<Rightarrow> PNone | Inr n \<Rightarrow> n)"
    by (auto simp: gh_sub_issue_parent_def)
  have q: "gh_issue_list_by_title (issue_list gh i) (dict_get c ''title'') = Inr [PDict r]"
    using a by (simp add: gh_issue_list_snapshot)
  have eqn: "py_eq expected PNone = (expected = PNone)"
    by (cases expected) simp_all
  from a have p: "map_parent_canonical_to_number (dict_get c ''parent_canonical'') im = Inr expected"
    and b: "py_or (dict_get r ''body'') (PStr []) = PStr body" and t: "dict_get c ''title'' = PStr t"
    by simp_all
  from loop_body_single [OF p q body_has_required_fields_str [OF b] n, of st]
  show "loop_body gh im i st c =
        Inr (if (body \<noteq> [] \<and> contains_ci (str_upper gh) ''REQUIRES'' body
                 \<and> contains_ci (str_upper gh) ''PROVIDES'' body
                 \<and> contains_ci (str_upper gh) ''PRIORITY'' body) \<and> expected = PNone
             then st\<lparr>scanned := scanned st + 1, fully_correct := fully_correct st + 1\<rparr>
             else st\<lparr>scanned := scanned st + 1,
                     exported := exported st @
                       [export_record c (PStr t) expected @
                        [(''notes'', PDict
                           [(''remote_issue_number'', dict_get r ''number''),
                            (''remote_parent_number'', PNone),
                            (''body_has_required_fields'',
                               PBool (body \<noteq> [] \<and> contains_ci (str_upper gh) ''REQUIRES'' body
                                      \<and> contains_ci (str_upper gh) ''PROVIDES'' body
                                      \<and> contains_ci (str_upper gh) ''PRIORITY'' body))])] ]\<rparr>)"
    by (auto simp: t eqn)
qed

lemma ex_down_first:
  "main_loop ex_gh_down (case Some ex_map of None \<Rightarrow> [] | Some m \<Rightarrow> m) 0 init_state
     [ex_cand ''Write docs'' PNone] =
   Inr \<lparr>exported = [export_record (ex_cand ''Write docs'' PNone) (PStr ''Write docs'') PNone],
        scanned = 1, fully_correct = 0, ambiguous = []\<rparr>"
  by code_simp

theorem C9_failures_witness:
  "exit_status (main ex_gh_down
      (Some ([ex_cand ''Write docs'' PNone] @ ex_cand ''Fix login'' PNone # [ex_cand ''Tune cache'' PNone]))
      (Some ex_map)) = 1
   \<and> written (main ex_gh_down
      (Some ([ex_cand ''Write docs'' PNone] @ ex_cand ''Fix login'' PNone # [ex_cand ''Tune cache'' PNone]))
      (Some ex_map)) = None
   \<and> main ex_gh_down
      (Some ([ex_cand ''Write docs'' PNone] @ ex_cand ''Fix login'' PNone # [ex_cand ''Tune cache'' PNone]))
      (Some ex_map) = Exited 1
   \<and> loop_body ex_gh ex_map 0 init_state (ex_cand ''Tune cache'' PNone) =
     Inr (init_state\<lparr>scanned := scanned init_state + 1,
            exported := exported init_state @
              [export_record (ex_cand ''Tune cache'' PNone) (PStr ''Tune cache'') PNone @
               [(''notes'', PDict [(''remote_issue_number'', PInt 14),
                                   (''remote_parent_number'', PNone),
                                   (''body_has_required_fields'', PBool False)])] ]\<rparr>)"
proof -
  let ?cs = "Some ([ex_cand ''Write docs'' PNone] @ ex_cand ''Fix login'' PNone
                     # [ex_cand ''Tune cache'' PNone])"
  let ?r14 = "[(''number'', PInt 14), (''title'', PStr ''Tune cache''), (''body'', PStr ''REQUIRES: x'')]"
  have down: "returncode (issue_list ex_gh_down (length [ex_cand ''Write docs'' PNone])) \<noteq> 0
      \<or> stdout_json (issue_list ex_gh_down (length [ex_cand ''Write docs'' PNone])) = None"
    by simp
  have par: "\<exists>expected. map_parent_canonical_to_number
      (dict_get (ex_cand ''Fix login'' PNone) ''parent_canonical'')
      (case Some ex_map of None \<Rightarrow> [] | Some m \<Rightarrow> m) = Inr expected"
    by (simp add: dict_get_def map_parent_canonical_to_number_def)
  have t: "dict_get (ex_cand ''Tune cache'' PNone) ''title'' = PStr ''Tune cache''"
    by (simp add: dict_get_def)
  have p: "map_parent_canonical_to_number
             (dict_get (ex_cand ''Tune cache'' PNone) ''parent_canonical'') ex_map = Inr PNone"
    by (simp add: dict_get_def map_parent_canonical_to_number_def)
  have r: "returncode (issue_list ex_gh 0) = 0"
    and o: "stdout_json (issue_list ex_gh 0) = Some (PList ex_tickets)"
    and d: "list_all is_dict ex_tickets"
    by simp_all
  have f: "filter (same_title ''Tune cache'') ex_tickets = [PDict ?r14]"
    unfolding same_title_def by (simp add: dict_get_def)
  have b: "py_or (dict_get ?r14 ''body'') (PStr []) = PStr ''REQUIRES: x''"
    by (simp add: dict_get_def py_or_def)
  have fail: "returncode (sub_issue ex_gh 0 (dict_get ?r14 ''number'')) \<noteq> 0
      \<or> stdout_json (sub_issue ex_gh 0 (dict_get ?r14 ''number'')) = None
      \<or> (\<exists>e. gh_sub_issue_parent (sub_issue ex_gh 0 (dict_get ?r14 ''number'')) = Inl e)"
    by (simp add: dict_get_def)
  have m: "\<not> contains_ci (str_upper ex_gh) ''PROVIDES'' ''REQUIRES: x''"
    by (simp add: contains_ci_str_contains ascii_upper_def ascii_upper_char_def)
  note T = C9_failures [of ex_gh_down "Some ex_map" "[ex_cand ''Write docs'' PNone]" _
      "ex_cand ''Fix login'' PNone" "[ex_cand ''Tune cache'' PNone]"]
  from T ex_down_first down par
  have one: "exit_status (main ex_gh_down ?cs (Some ex_map)) = 1
      \<and> written (main ex_gh_down ?cs (Some ex_map)) = None
      \<and> main ex_gh_down ?cs (Some ex_map) = Exited 1"
    by blast
  from C9_failures [of ex_gh "Some ex_map" "[]" init_state "ex_cand ''Tune cache'' PNone" "[]"
      "''Tune cache''" ex_map PNone 0 ex_tickets ?r14 "''REQUIRES: x''" init_state]
    t p r o d f b fail
  have "loop_body ex_gh ex_map 0 init_state (ex_cand ''Tune cache'' PNone) =
     Inr (if (''REQUIRES: x'' \<noteq> []
              \<and> contains_ci (str_upper ex_gh) ''REQUIRES'' ''REQUIRES: x''
              \<and> contains_ci (str_upper ex_gh) ''PROVIDES'' ''REQUIRES: x''
              \<and> contains_ci (str_upper ex_gh) ''PRIORITY'' ''REQUIRES: x'') \<and> PNone = PNone
          then init_state\<lparr>scanned := scanned init_state + 1,
                 fully_correct := fully_correct init_state + 1\<rparr>
          else init_state\<lparr>scanned := scanned init_state + 1,
                 exported := exported init_state @
                   [export_record (ex_cand ''Tune cache'' PNone) (PStr ''Tune cache'') PNone @
                    [(''notes'', PDict
                       [(''remote_issue_number'', dict_get ?r14 ''number''),
                        (''remote_parent_number'', PNone),
                        (''body_has_required_fields'',
                           PBool (''REQUIRES: x'' \<noteq> []
                                  \<and> contains_ci (str_upper ex_gh) ''REQUIRES'' ''REQUIRES: x''
                                  \<and> contains_ci (str_upper ex_gh) ''PROVIDES'' ''REQUIRES: x''
                                  \<and> contains_ci (str_upper ex_gh) ''PRIORITY'' ''REQUIRES: x''))])] ]\<rparr>)"
    by blast
  then have two: "loop_body ex_gh ex_map 0 init_state (ex_cand ''Tune cache'' PNone) =
     Inr (init_state\<lparr>scanned := scanned init_state + 1,
            exported := exported init_state @
              [export_record (ex_cand ''Tune cache'' PNone) (PStr ''Tune cache'') PNone @
               [(''notes'', PDict [(''remote_issue_number'', PInt 14),
                                   (''remote_parent_number'', PNone),
                                   (''body_has_required_fields'', PBool False)])] ]\<rparr>)"
    using m by (simp add: dict_get_def)
  from one two show ?thesis by blast
qed

section \<open>Properties of parse\_local\_ticket\_files.py\<close>

subsection \<open>Equality of hashable values is symmetric and transitive\<close>

lemma py_eq_num_left:
  "py_num a = Some x \<Longrightarrow> py_eq a b = (py_num b = Some x \<and> x \<noteq> NaN)"
  by (cases a; cases b) auto

lemma py_eq_None_left: "py_eq PNone b = (b = PNone)"
  by (cases b) auto

lemma py_eq_Str_left: "py_eq (PStr s) b = (b = PStr s)"
  by (cases b) auto

lemma py_eq_Tuple_left: "py_eq (PTuple xs) b = (\<exists>ys. b = PTuple ys \<and> py_eq_seq xs ys)"
  by (cases b) auto

lemma py_eq_seq_sym:
  assumes "\<And>x y. x \<in> set xs \<Longrightarrow> y \<in> set ys \<Longrightarrow> py_eq x y \<Longrightarrow> py_eq y x"
    and "py_eq_seq xs ys"
  shows "py_eq_seq ys xs"
  using assms
proof (induction xs arbitrary: ys)
  case Nil
  from Nil.prems(2) show ?case by (cases ys) simp_all
next
  case (Cons x xs)
  from Cons.prems(2) obtain y ys' where ys: "ys = y # ys'" and h: "py_eq x y" "py_eq_seq xs ys'"
    by (cases ys) simp_all
  have "py_eq y x"
    using Cons.prems(1) [of x y] h(1) ys by simp
  moreover have "py_eq_seq ys' xs"
  proof (rule Cons.IH [OF _ h(2)])
    fix a b assume "a \<in> set xs" "b \<in> set ys'" "py_eq a b"
    then show "py_eq b a" using Cons.prems(1) [of a b] ys by simp
  qed
  ultimately show ?case by (simp add: ys)
qed

lemma py_eq_seq_trans:
  assumes "\<And>x y z. x \<in> set xs \<Longrightarrow> y \<in> set ys \<Longrightarrow> z \<in> set zs \<Longrightarrow>
             py_eq x y \<Longrightarrow> py_eq y z \<Longrightarrow> py_eq x z"
    and "py_eq_seq xs ys" and "py_eq_seq ys zs"
  shows "py_eq_seq xs zs"
  using assms
proof (induction xs arbitrary: ys zs)
  case Nil
  from Nil.prems(2) have "ys = []" by (cases ys) simp_all
  with Nil.prems(3) show ?case by simp
next
  case (Cons x xs)
  from Cons.prems(2) obtain y ys' where ys: "ys = y # ys'" and h: "py_eq x y" "py_eq_seq xs ys'"
    by (cases ys) simp_all
  from Cons.prems(3) ys obtain z zs' where zs: "zs = z # zs'" and h': "py_eq y z" "py_eq_seq ys' zs'"
    by (cases zs) simp_all
  have "py_eq x z"
    using Cons.prems(1) [of x y z] h(1) h'(1) ys zs by simp
  moreover have "py_eq_seq xs zs'"
  proof (rule Cons.IH [OF _ h(2) h'(2)])
    fix a b c assume "a \<in> set xs" "b \<in> set ys'" "c \<in> set zs'" "py_eq a b" "py_eq b c"
    then show "py_eq a c" using Cons.prems(1) [of a b c] ys zs by simp
  qed
  ultimately show ?case by (simp add: zs)
qed

lemma py_eq_sym_num: "py_num a = Some x \<Longrightarrow> py_eq a b \<Longrightarrow> py_eq b a"
  by (simp add: py_eq_num_left)

lemma py_eq_trans_num: "py_num a = Some x \<Longrightarrow> py_eq a b \<Longrightarrow> py_eq b c \<Longrightarrow> py_eq a c"
  by (simp add: py_eq_num_left)

lemma py_eq_sym: "hashable a \<Longrightarrow> hashable b \<Longrightarrow> py_eq a b \<Longrightarrow> py_eq b a"
proof (induction a arbitrary: b)
  case PNone
  then show ?case by (simp add: py_eq_None_left)
next
  case (PBool x)
  then show ?case by (intro py_eq_sym_num [of "PBool x"]) simp_all
next
  case (PInt x)
  then show ?case by (intro py_eq_sym_num [of "PInt x"]) simp_all
next
  case (PFloat x)
  then show ?case by (intro py_eq_sym_num [of "PFloat x"]) simp_all
next
  case (PStr x)
  then show ?case by (simp add: py_eq_Str_left)
next
  case (PList x)
  then show ?case by simp
next
  case (PTuple xs)
  from PTuple.prems(3) obtain ys where b: "b = PTuple ys" and s: "py_eq_seq xs ys"
    by (auto simp: py_eq_Tuple_left)
  have "py_eq_seq ys xs"
  proof (rule py_eq_seq_sym [OF _ s])
    fix x y assume "x \<in> set xs" "y \<in> set ys" "py_eq x y"
    with PTuple.prems(1,2) b PTuple.IH [of x y] show "py_eq y x"
      by (simp add: list_all_iff)
  qed
  with b show ?case by simp
next
  case (PDict x)
  then show ?case by simp
qed

lemma py_eq_trans:
  "hashable a \<Longrightarrow> hashable b \<Longrightarrow> hashable c \<Longrightarrow> py_eq a b \<Longrightarrow> py_eq b c \<Longrightarrow> py_eq a c"
proof (induction a arbitrary: b c)
  case PNone
  then show ?case by (simp add: py_eq_None_left)
next
  case (PBool x)
  then show ?case by (intro py_eq_trans_num [of "PBool x" _ b c]) simp_all
next
  case (PInt x)
  then show ?case by (intro py_eq_trans_num [of "PInt x" _ b c]) simp_all
next
  case (PFloat x)
  then show ?case by (intro py_eq_trans_num [of "PFloat x" _ b c]) simp_all
next
  case (PStr x)
  then show ?case by (simp add: py_eq_Str_left)
next
  case (PList x)
  then show ?case by simp
next
  case (PTuple xs)
  from PTuple.prems(4) obtain ys where b: "b = PTuple ys" and s: "py_eq_seq xs ys"
    by (auto simp: py_eq_Tuple_left)
  from PTuple.prems(5) b obtain zs where c: "c = PTuple zs" and s': "py_eq_seq ys zs"
    by (auto simp: py_eq_Tuple_left)
  have "py_eq_seq xs zs"
  proof (rule py_eq_seq_trans [OF _ s s'])
    fix x y z assume "x \<in> set xs" "y \<in> set ys" "z \<in> set zs" "py_eq x y" "py_eq y z"
    with PTuple.prems(1,2,3) b c PTuple.IH [of x y z] show "py_eq x z"
      by (simp add: list_all_iff)
  qed
  with c show ?case by simp
next
  case (PDict x)
  then show ?case by simp
qed

lemma py_eq_self: "hashable a \<Longrightarrow> hashable b \<Longrightarrow> py_eq a b \<Longrightarrow> py_eq b b"
  using py_eq_trans [of b a b] py_eq_sym [of a b] by blast

subsection \<open>Normalization\<close>

lemma dict_get_Nil: "dict_get [] k = PNone"
  by (simp add: dict_get_def)

lemma dict_get_Cons: "dict_get ((k, v) # d) k' = (if k = k' then v else dict_get d k')"
  by (simp add: dict_get_def)

lemma map_of_dict_set: "map_of (dict_set d k v) = (map_of d)(k \<mapsto> v)"
  by (induction d) (auto simp: fun_eq_iff)

lemma dict_get_dict_set: "dict_get (dict_set d k v) k' = (if k' = k then v else dict_get d k')"
  by (simp add: dict_get_def map_of_dict_set)

lemma dict_get_labels_step:
  "k \<noteq> ''labels'' \<Longrightarrow>
   dict_get (case x of PStr l \<Rightarrow> dict_set c ''labels'' (f l) | _ \<Rightarrow> c) k = dict_get c k"
  by (cases x) (simp_all add: dict_get_dict_set)

lemma dict_get_points_step:
  "dict_get (if b then (case a of Some n \<Rightarrow> dict_set c ''points'' (f n)
                        | None \<Rightarrow> (case a' of Some x \<Rightarrow> dict_set c ''points'' (g x)
                                    | None \<Rightarrow> dict_set c ''points'' h))
             else c) k =
     (if k = ''points'' \<and> b
      then (case a of Some n \<Rightarrow> f n | None \<Rightarrow> (case a' of Some x \<Rightarrow> g x | None \<Rightarrow> h))
      else dict_get c k)"
  by (simp add: dict_get_dict_set split: option.splits)

lemma normalize_ticket_title:
  "dict_get (normalize_ticket ti tf d) ''title'' =
     py_or (dict_get d ''title'') (py_or (dict_get d ''name'')
       (py_or (dict_get d ''summary'') (PStr [])))"
  unfolding normalize_ticket_def Let_def dict_get_points_step
  by (simp add: dict_get_labels_step dict_get_Cons)

lemma normalize_ticket_points:
  "dict_get (normalize_ticket ti tf d) ''points'' =
     (let v = py_or (dict_get d ''points'') (py_or (dict_get d ''estimate'') PNone)
      in if v = PNone then PNone
         else case ti v of Some n \<Rightarrow> PInt n
              | None \<Rightarrow> (case tf v of Some x \<Rightarrow> PFloat x | None \<Rightarrow> PNone))"
  unfolding normalize_ticket_def Let_def dict_get_points_step
  by (simp add: dict_get_labels_step dict_get_Cons cong: option.case_cong)


lemma first_truthy_or3:
  "py_or a (py_or b (py_or c dflt)) =
     (case first_truthy [a, b, c] of Some v \<Rightarrow> v | None \<Rightarrow> dflt)"
  by (simp add: py_or_def)

lemma first_truthy_or2:
  "py_or a (py_or b dflt) = (case first_truthy [a, b] of Some v \<Rightarrow> v | None \<Rightarrow> dflt)"
  by (simp add: py_or_def)

lemma first_truthy_truthy: "first_truthy vs = Some v \<Longrightarrow> truthy v"
  by (induction vs) (auto split: if_splits)

text \<open>
  C4 (as amended). The title of the normalized ticket is the value of the first of the
  aliases \<^verbatim>\<open>title\<close>, \<^verbatim>\<open>name\<close>, \<^verbatim>\<open>summary\<close> whose value is non-empty (true),
  exactly as it stands in the raw record; when no alias has such a value, the title is
  the empty string.
\<close>

theorem C4_title_from_aliases:
  "(first_truthy [dict_get d ''title'', dict_get d ''name'', dict_get d ''summary''] = Some v \<longrightarrow>
      dict_get (normalize_ticket to_int to_float d) ''title'' = v)
   \<and> (first_truthy [dict_get d ''title'', dict_get d ''name'', dict_get d ''summary''] = None \<longrightarrow>
      dict_get (normalize_ticket to_int to_float d) ''title'' = PStr [])"
  unfolding normalize_ticket_title first_truthy_or3 by simp

theorem C4_title_from_aliases_witness:
  "dict_get (normalize_ticket (\<lambda>v. None) (\<lambda>v. None)
      [(''summary'', PStr ''Fix login''), (''name'', PStr ''Add caching layer'')]) ''title''
     = PStr ''Add caching layer''
   \<and> dict_get (normalize_ticket (\<lambda>v. None) (\<lambda>v. None)
      [(''title'', PStr []), (''summary'', PStr ''Fix login'')]) ''title'' = PStr ''Fix login''
   \<and> dict_get (normalize_ticket (\<lambda>v. None) (\<lambda>v. None) [(''body'', PStr ''text'')]) ''title''
     = PStr []"
  using C4_title_from_aliases [of "[(''summary'', PStr ''Fix login''), (''name'', PStr ''Add caching layer'')]"
      "PStr ''Add caching layer''" "\<lambda>v. None" "\<lambda>v. None"]
    C4_title_from_aliases [of "[(''title'', PStr []), (''summary'', PStr ''Fix login'')]"
      "PStr ''Fix login''" "\<lambda>v. None" "\<lambda>v. None"]
    C4_title_from_aliases [of "[(''body'', PStr ''text'')]" PNone "\<lambda>v. None" "\<lambda>v. None"]
  by (simp add: dict_get_Cons dict_get_Nil)

text \<open>
  C4 as it was stated fails: a record whose \<^verbatim>\<open>title\<close> is present but empty and
  whose \<^verbatim>\<open>name\<close> is set gets the name as its title, not the value of the first
  present alias.
\<close>

theorem C4_counterexample:
  "map_of [(''title'', PStr []), (''name'', PStr ''Add caching layer'')] ''title'' = Some (PStr [])
   \<and> dict_get (normalize_ticket (\<lambda>v. None) (\<lambda>v. None)
        [(''title'', PStr []), (''name'', PStr ''Add caching layer'')]) ''title''
      = PStr ''Add caching layer''
   \<and> dict_get (normalize_ticket (\<lambda>v. None) (\<lambda>v. None)
        [(''title'', PStr []), (''name'', PStr ''Add caching layer'')]) ''title''
      \<noteq> PStr []"
  by (simp add: normalize_ticket_title dict_get_Cons dict_get_Nil py_or_def)

text \<open>
  C7 (as amended). Points normalization is total. The source value is the first of
  \<^verbatim>\<open>points\<close>, \<^verbatim>\<open>estimate\<close> whose value is true (non-zero, non-empty). Without one
  the points are None. Otherwise they are the integer coercion of the source value when
  it succeeds, else its floating-point coercion when that succeeds, else None.
\<close>

theorem C7_points_coercion:
  "(first_truthy [dict_get d ''points'', dict_get d ''estimate''] = None \<longrightarrow>
      dict_get (normalize_ticket to_int to_float d) ''points'' = PNone)
   \<and> (first_truthy [dict_get d ''points'', dict_get d ''estimate''] = Some v \<and> to_int v = Some n \<longrightarrow>
      dict_get (normalize_ticket to_int to_float d) ''points'' = PInt n)
   \<and> (first_truthy [dict_get d ''points'', dict_get d ''estimate''] = Some v \<and> to_int v = None
        \<and> to_float v = Some x \<longrightarrow>
      dict_get (normalize_ticket to_int to_float d) ''points'' = PFloat x)
   \<and> (first_truthy [dict_get d ''points'', dict_get d ''estimate''] = Some v \<and> to_int v = None
        \<and> to_float v = None \<longrightarrow>
      dict_get (normalize_ticket to_int to_float d) ''points'' = PNone)"
proof -
  have "v \<noteq> PNone" if "first_truthy [dict_get d ''points'', dict_get d ''estimate''] = Some v"
    using first_truthy_truthy [OF that] by auto
  then show ?thesis
    unfolding normalize_ticket_points first_truthy_or2 by (auto simp: Let_def)
qed

theorem C7_points_coercion_witness:
  "dict_get (normalize_ticket ex_int ex_float [(''title'', PStr ''Fix login'')]) ''points'' = PNone
   \<and> dict_get (normalize_ticket ex_int ex_float [(''points'', PStr ''8'')]) ''points'' = PInt 8
   \<and> dict_get (normalize_ticket ex_int ex_float [(''estimate'', PStr ''2.5'')]) ''points''
       = PFloat (Fin (5 / 2))
   \<and> dict_get (normalize_ticket ex_int ex_float [(''points'', PStr ''big'')]) ''points'' = PNone"
  using C7_points_coercion [where d = "[(''title'', PStr ''Fix login'')]" and to_int = ex_int
      and to_float = ex_float]
    C7_points_coercion [where d = "[(''points'', PStr ''8'')]" and v = "PStr ''8''"
      and to_int = ex_int and to_float = ex_float and n = 8]
    C7_points_coercion [where d = "[(''estimate'', PStr ''2.5'')]" and v = "PStr ''2.5''"
      and to_int = ex_int and to_float = ex_float and x = "Fin (5 / 2)"]
    C7_points_coercion [where d = "[(''points'', PStr ''big'')]" and v = "PStr ''big''"
      and to_int = ex_int and to_float = ex_float]
  by (simp add: dict_get_Cons dict_get_Nil)

text \<open>
  C7 as it was stated fails: for the source value 0 the integer coercion succeeds, yet
  the normalized points are None.
\<close>

theorem C7_counterexample:
  "map_of [(''points'', PInt 0)] ''points'' = Some (PInt 0)
   \<and> ex_int (PInt 0) = Some 0
   \<and> dict_get (normalize_ticket ex_int ex_float [(''points'', PInt 0)]) ''points'' = PNone
   \<and> dict_get (normalize_ticket ex_int ex_float [(''points'', PInt 0)]) ''points'' \<noteq> PInt 0"
  by (simp add: normalize_ticket_points dict_get_Cons dict_get_Nil py_or_def)

subsection \<open>Extraction and deduplication\<close>

lemma add_all_append:
  "add_all st (xs @ ys) =
     (case add_all st xs of Inl e \<Rightarrow> Inl e | Inr st' \<Rightarrow> add_all st' ys)"
  by (induction xs arbitrary: st) (auto split: sum.splits)

lemma list_loop_add_all:
  "list_all is_dict items \<Longrightarrow>
   list_loop ti tf st items = add_all st (map (normalize_ticket ti tf) (map the_dict items))"
proof (induction items arbitrary: st)
  case Nil
  show ?case by simp
next
  case (Cons item items)
  then obtain d where "item = PDict d" by (cases item) auto
  with Cons show ?case by (auto split: sum.splits)
qed

lemma mapping_loop_add_all:
  "list_all (\<lambda>kv. is_dict (snd kv)) d \<Longrightarrow>
   mapping_loop ti tf st d =
     add_all st (map (normalize_ticket ti tf)
                   (map (\<lambda>kv. keyed_record (fst kv) (the_dict (snd kv))) d))"
proof (induction d arbitrary: st)
  case Nil
  show ?case by simp
next
  case (Cons kv d)
  obtain k v where kv: "kv = (k, v)" by (cases kv)
  with Cons.prems obtain r where "v = PDict r" by (cases v) auto
  with Cons kv show ?case by (auto simp: keyed_record_def Let_def split: sum.splits)
qed

lemma add_all_single: "add_all st [c] = add_candidate st c"
  by (simp split: sum.splits)

lemma process_literal_add_all:
  "process_literal ti tf st lit = add_all st (map (normalize_ticket ti tf) (literal_records lit))"
  by (cases lit) (simp_all add: list_loop_add_all mapping_loop_add_all split: sum.splits)

lemma literals_loop_add_all:
  "literals_loop ti tf st lits =
     add_all st (map (normalize_ticket ti tf) (concat (map literal_records lits)))"
  by (induction lits arbitrary: st)
     (simp_all add: process_literal_add_all add_all_append split: sum.splits)

lemma add_candidate_cases:
  assumes "add_candidate st c = Inr st'"
  shows "(\<not> truthy (title_of c) \<and> st' = st)
     \<or> (truthy (title_of c) \<and> hashable (title_of c)
          \<and> list_ex (\<lambda>m. py_eq m (title_of c)) (seen_titles st) \<and> st' = st)
     \<or> (truthy (title_of c) \<and> hashable (title_of c)
          \<and> \<not> list_ex (\<lambda>m. py_eq m (title_of c)) (seen_titles st)
          \<and> st' = st\<lparr>seen_titles := title_of c # seen_titles st,
                       candidate_list := candidate_list st @ [c]\<rparr>)"
  using assms
  by (auto simp: add_candidate_def py_in_set_def title_of_def split: if_splits)

lemma add_all_first_wins:
  assumes "add_all st cs = Inr st'"
    and "list_all hashable (seen_titles st)"
    and "\<And>t. hashable t \<Longrightarrow>
           list_ex (\<lambda>s. py_eq s t) earlier = list_ex (\<lambda>s. py_eq s t) (seen_titles st)"
  shows "candidate_list st' = candidate_list st @ first_wins earlier cs
     \<and> (\<forall>c\<in>set cs. truthy (title_of c) \<longrightarrow> hashable (title_of c))"
  using assms
proof (induction cs arbitrary: st earlier)
  case Nil
  then show ?case by simp
next
  case (Cons c cs)
  from Cons.prems(1) obtain st1 where a: "add_candidate st c = Inr st1"
    and r: "add_all st1 cs = Inr st'"
    by (auto split: sum.splits)
  let ?t = "title_of c"
  from add_candidate_cases [OF a]
  consider (empty) "\<not> truthy ?t" "st1 = st"
    | (seen) "truthy ?t" "hashable ?t" "list_ex (\<lambda>m. py_eq m ?t) (seen_titles st)" "st1 = st"
    | (new) "truthy ?t" "hashable ?t" "\<not> list_ex (\<lambda>m. py_eq m ?t) (seen_titles st)"
        "st1 = st\<lparr>seen_titles := ?t # seen_titles st, candidate_list := candidate_list st @ [c]\<rparr>"
    by blast
  then show ?case
  proof cases
    case empty
    from Cons.IH [of st earlier] r empty Cons.prems(2,3) show ?thesis by simp
  next
    case seen
    from seen(3) obtain m where m: "m \<in> set (seen_titles st)" "py_eq m ?t"
      by (auto simp: list_ex_iff)
    with Cons.prems(2) have hm: "hashable m" by (simp add: list_all_iff)
    have inv: "list_ex (\<lambda>s. py_eq s t) (earlier @ [?t]) = list_ex (\<lambda>s. py_eq s t) (seen_titles st)"
      if "hashable t" for t
    proof (cases "py_eq ?t t")
      case True
      with py_eq_trans [OF hm seen(2) that m(2)] m(1)
      have "list_ex (\<lambda>s. py_eq s t) (seen_titles st)" by (auto simp: list_ex_iff)
      with True show ?thesis by simp
    next
      case False
      with Cons.prems(3) [OF that] show ?thesis by simp
    qed
    have e: "list_ex (\<lambda>s. py_eq s ?t) earlier"
      using Cons.prems(3) [OF seen(2)] seen(3) by simp
    from Cons.IH [of st "earlier @ [?t]"] r seen(4) Cons.prems(2) inv
    have "candidate_list st' = candidate_list st @ first_wins (earlier @ [?t]) cs
        \<and> (\<forall>c\<in>set cs. truthy (title_of c) \<longrightarrow> hashable (title_of c))"
      by simp
    with seen(1,2) e show ?thesis by simp
  next
    case new
    have inv: "list_ex (\<lambda>s. py_eq s t) (earlier @ [?t]) = list_ex (\<lambda>s. py_eq s t) (seen_titles st1)"
      if "hashable t" for t
      using Cons.prems(3) [OF that] new(4) by auto
    have h: "list_all hashable (seen_titles st1)"
      using Cons.prems(2) new(2,4) by simp
    have e: "\<not> list_ex (\<lambda>s. py_eq s ?t) earlier"
      using Cons.prems(3) [OF new(2)] new(3) by simp
    from Cons.IH [OF r h inv]
    have "candidate_list st' = candidate_list st1 @ first_wins (earlier @ [?t]) cs
        \<and> (\<forall>c\<in>set cs. truthy (title_of c) \<longrightarrow> hashable (title_of c))"
      by simp
    with new(1,2,4) e show ?thesis by simp
  qed
qed

lemma first_wins_truthy: "c \<in> set (first_wins e cs) \<Longrightarrow> truthy (title_of c)"
  by (induction cs arbitrary: e) (auto split: if_splits)

lemma first_wins_count:
  assumes "list_all hashable e"
    and "\<forall>c\<in>set cs. truthy (title_of c) \<longrightarrow> hashable (title_of c)"
    and "hashable t"
  shows "length (filter (\<lambda>r. py_eq (title_of r) t) (first_wins e cs)) =
     (if list_ex (\<lambda>s. py_eq s t) e then 0
      else if list_ex (\<lambda>c. truthy (title_of c) \<and> py_eq (title_of c) t) cs then 1 else 0)"
  using assms
proof (induction cs arbitrary: e)
  case Nil
  then show ?case by simp
next
  case (Cons c cs)
  let ?tc = "title_of c"
  show ?case
  proof (cases "truthy ?tc")
    case False
    with Cons.IH [of e] Cons.prems show ?thesis by simp
  next
    case True
    with Cons.prems(2) have hc: "hashable ?tc" by simp
    have he: "list_all hashable (e @ [?tc])"
      using Cons.prems(1) hc by simp
    note IH = Cons.IH [OF he _ Cons.prems(3)]
    have ih: "length (filter (\<lambda>r. py_eq (title_of r) t) (first_wins (e @ [?tc]) cs)) =
      (if list_ex (\<lambda>s. py_eq s t) e \<or> py_eq ?tc t then 0
       else if list_ex (\<lambda>c. truthy (title_of c) \<and> py_eq (title_of c) t) cs then 1 else 0)"
      using IH Cons.prems(2) by simp
    show ?thesis
    proof (cases "list_ex (\<lambda>s. py_eq s ?tc) e")
      case dup: True
      then obtain s where s: "s \<in> set e" "py_eq s ?tc" by (auto simp: list_ex_iff)
      with Cons.prems(1) have hs: "hashable s" by (simp add: list_all_iff)
      have "list_ex (\<lambda>s. py_eq s t) e" if "py_eq ?tc t"
        using py_eq_trans [OF hs hc Cons.prems(3) s(2) that] s(1) by (auto simp: list_ex_iff)
      with True dup ih show ?thesis by auto
    next
      case fresh: False
      have "\<not> py_eq ?tc t" if "list_ex (\<lambda>s. py_eq s t) e"
      proof
        assume ct: "py_eq ?tc t"
        from that obtain s where s: "s \<in> set e" "py_eq s t" by (auto simp: list_ex_iff)
        with Cons.prems(1) have hs: "hashable s" by (simp add: list_all_iff)
        from py_eq_sym [OF hc Cons.prems(3) ct] have "py_eq t ?tc" .
        from py_eq_trans [OF hs Cons.prems(3) hc s(2) this] s(1) fresh
        show False by (auto simp: list_ex_iff)
      qed
      with True fresh ih show ?thesis by auto
    qed
  qed
qed

lemma add_candidate_errors:
  "add_candidate (st\<lparr>errors := e\<rparr>) c =
     (case add_candidate st c of Inl x \<Rightarrow> Inl x | Inr s \<Rightarrow> Inr (s\<lparr>errors := e\<rparr>))"
  by (simp add: add_candidate_def split: sum.splits)

lemma add_all_errors:
  "add_all (st\<lparr>errors := e\<rparr>) cs =
     (case add_all st cs of Inl x \<Rightarrow> Inl x | Inr s \<Rightarrow> Inr (s\<lparr>errors := e\<rparr>))"
  by (induction cs arbitrary: st) (auto simp: add_candidate_errors split: sum.splits)

lemma files_loop_add_all:
  "files_loop ti tf st files = Inr st' \<Longrightarrow>
   \<exists>st''. add_all st (map (normalize_ticket ti tf) (all_records files)) = Inr st''
      \<and> candidate_list st'' = candidate_list st' \<and> seen_titles st'' = seen_titles st'"
proof (induction files arbitrary: st)
  case Nil
  then show ?case by (simp add: all_records_def)
next
  case (Cons f files)
  obtain path res where f: "f = (path, res)" by (cases f)
  show ?case
  proof (cases res)
    case (Inl msg)
    with Cons.prems f
    have "files_loop ti tf (st\<lparr>errors := errors st @ [(path, msg)]\<rparr>) files = Inr st'"
      by simp
    from Cons.IH [OF this] obtain st'' where
      "add_all (st\<lparr>errors := errors st @ [(path, msg)]\<rparr>)
         (map (normalize_ticket ti tf) (all_records files)) = Inr st''"
      "candidate_list st'' = candidate_list st'" "seen_titles st'' = seen_titles st'"
      by blast
    then show ?thesis
      using f Inl by (auto simp: all_records_def add_all_errors split: sum.splits)
  next
    case (Inr literals)
    with Cons.prems f obtain st1 where
      l: "literals_loop ti tf st literals = Inr st1" and r: "files_loop ti tf st1 files = Inr st'"
      by (auto split: sum.splits)
    from Cons.IH [OF r] obtain st'' where
      "add_all st1 (map (normalize_ticket ti tf) (all_records files)) = Inr st''"
      "candidate_list st'' = candidate_list st'" "seen_titles st'' = seen_titles st'"
      by blast
    then show ?thesis
      using f Inr l by (simp add: all_records_def add_all_append literals_loop_add_all [symmetric])
  qed
qed

text \<open>
  C5. In a run of \<^verbatim>\<open>main\<close> that reaches its end, the candidate list is the list of
  the first-encountered candidates of each title, over the normalized records of all
  files in the order of the run; every candidate in it has a non-empty title; and for
  every normalized record with a non-empty title exactly one candidate of the list has
  an equal title (for a title that is a string: the same string). Equal is \<^verbatim>\<open>==\<close>; the
  one title that is not equal to itself, a float NaN (alone or inside a tuple), which no
  literal denotes, has no candidate with an equal title.
\<close>

theorem C5_one_candidate_per_title:
  assumes "parse_main to_int to_float files = Inr st"
  shows "candidate_list st = first_wins [] (map (normalize_ticket to_int to_float) (all_records files))
     \<and> (\<forall>c\<in>set (candidate_list st). truthy (title_of c))
     \<and> (\<forall>c\<in>set (map (normalize_ticket to_int to_float) (all_records files)).
           truthy (title_of c) \<longrightarrow>
           length (filter (\<lambda>r. py_eq (title_of r) (title_of c)) (candidate_list st)) =
             (if py_eq (title_of c) (title_of c) then 1 else 0))
     \<and> (\<forall>c\<in>set (map (normalize_ticket to_int to_float) (all_records files)).
           \<forall>s. title_of c = PStr s \<and> s \<noteq> [] \<longrightarrow>
           length (filter (\<lambda>r. title_of r = PStr s) (candidate_list st)) = 1)"
proof -
  let ?cs = "map (normalize_ticket to_int to_float) (all_records files)"
  from assms have "files_loop to_int to_float parse_init files = Inr st"
    by (simp add: parse_main_def)
  from files_loop_add_all [OF this] obtain st'' where
    a: "add_all parse_init ?cs = Inr st''" and c: "candidate_list st'' = candidate_list st"
    by blast
  from add_all_first_wins [OF a, of "[]"]
  have fw: "candidate_list st = first_wins [] ?cs"
    and h: "\<forall>c\<in>set ?cs. truthy (title_of c) \<longrightarrow> hashable (title_of c)"
    using c by (simp_all add: parse_init_def)
  have t: "\<forall>c\<in>set (candidate_list st). truthy (title_of c)"
    unfolding fw by (blast intro: first_wins_truthy)
  have one: "length (filter (\<lambda>r. py_eq (title_of r) (title_of c)) (candidate_list st)) =
      (if py_eq (title_of c) (title_of c) then 1 else 0)"
    if "c \<in> set ?cs" "truthy (title_of c)" for c
  proof -
    from h that have hc: "hashable (title_of c)" by blast
    have "list_ex (\<lambda>c'. truthy (title_of c') \<and> py_eq (title_of c') (title_of c)) ?cs
          = py_eq (title_of c) (title_of c)"
    proof
      assume "list_ex (\<lambda>c'. truthy (title_of c') \<and> py_eq (title_of c') (title_of c)) ?cs"
      then obtain c' where c': "c' \<in> set ?cs" "truthy (title_of c')"
        "py_eq (title_of c') (title_of c)"
        unfolding list_ex_iff by blast
      from h c'(1,2) have "hashable (title_of c')" by blast
      from py_eq_self [OF this hc c'(3)] show "py_eq (title_of c) (title_of c)" .
    next
      assume "py_eq (title_of c) (title_of c)"
      with that show "list_ex (\<lambda>c'. truthy (title_of c') \<and> py_eq (title_of c') (title_of c)) ?cs"
        unfolding list_ex_iff by blast
    qed
    with first_wins_count [OF _ h hc, of "[]"] show ?thesis
      unfolding fw by simp
  qed
  have str: "length (filter (\<lambda>r. title_of r = PStr s) (candidate_list st)) = 1"
    if "c \<in> set ?cs" "title_of c = PStr s" "s \<noteq> []" for c s
    using one [OF that(1)] that(2,3) by (simp add: py_eq_PStr_right)
  from fw t one str show ?thesis by blast
qed

lemma ex_parse_run:
  "(case parse_main ex_int ex_float ex_files of
      Inl e \<Rightarrow> False
    | Inr st \<Rightarrow> map title_of (candidate_list st) =
                  [PStr ''Fix login'', PStr ''Tune cache'', PStr ''Write docs'']
               \<and> map (\<lambda>c. dict_get c ''canonical_id'') (candidate_list st) = [PNone, PNone, PStr ''GO-2'']
               \<and> errors st = [(''broken.py'', ''invalid syntax'')])"
  by code_simp

theorem C5_one_candidate_per_title_witness:
  "\<exists>st. parse_main ex_int ex_float ex_files = Inr st
     \<and> map title_of (candidate_list st) =
          [PStr ''Fix login'', PStr ''Tune cache'', PStr ''Write docs'']
     \<and> candidate_list st =
          first_wins [] (map (normalize_ticket ex_int ex_float) (all_records ex_files))
     \<and> (\<forall>c\<in>set (candidate_list st). truthy (title_of c))
     \<and> (\<forall>c\<in>set (map (normalize_ticket ex_int ex_float) (all_records ex_files)).
           truthy (title_of c) \<longrightarrow>
           length (filter (\<lambda>r. py_eq (title_of r) (title_of c)) (candidate_list st)) =
             (if py_eq (title_of c) (title_of c) then 1 else 0))
     \<and> (\<forall>c\<in>set (map (normalize_ticket ex_int ex_float) (all_records ex_files)).
           \<forall>s. title_of c = PStr s \<and> s \<noteq> [] \<longrightarrow>
           length (filter (\<lambda>r. title_of r = PStr s) (candidate_list st)) = 1)"
proof -
  from ex_parse_run obtain st where r: "parse_main ex_int ex_float ex_files = Inr st"
    and t: "map title_of (candidate_list st) =
          [PStr ''Fix login'', PStr ''Tune cache'', PStr ''Write docs'']"
    by (auto split: sum.splits)
  note p = C5_one_candidate_per_title [OF r]
  note p1 = p [THEN conjunct1] and p2 = p [THEN conjunct2, THEN conjunct1]
    and p3 = p [THEN conjunct2, THEN conjunct2, THEN conjunct1]
    and p4 = p [THEN conjunct2, THEN conjunct2, THEN conjunct2]
  show ?thesis
    by (intro exI [of _ st] conjI) (rule r t p1 p2 p3 p4)+
qed




section \<open>From the parser to the comparison\<close>





end
